theory Spec2Isabelle
  imports
    Complex_Main
    "HOL-Library.Char_ord"
    "HOL-Library.List_Lexorder"
    "HOL-Library.Product_Lexorder"
    "HOL-Library.Multiset"
    "HOL-Library.AList"
begin

section \<open>Text and the regular expressions of generate-catalog.mjs\<close>

text \<open>
  A JavaScript string is modelled as a \<^typ>\<open>string\<close>, one \<^typ>\<open>char\<close> per code unit
  (code units above 0xFF are not represented; no pattern of the source names one
  except through the class \<^verbatim>\<open>\s\<close>).  A regular expression is modelled by a matcher:
  a function that, given the text from a start position on, returns the text after the
  match, or \<open>None\<close> when the expression does not match at that position.
\<close>

type_synonym matcher = "string \<Rightarrow> string option"

text \<open>The class \<^verbatim>\<open>\s\<close>: tab, LF, VT, FF, CR, space and no-break space.\<close>

definition is_space :: "char \<Rightarrow> bool" where
  "is_space c \<longleftrightarrow>
     c \<in> set [CHR 0x09, CHR 0x0A, CHR 0x0B, CHR 0x0C, CHR 0x0D, CHR 0x20, CHR 0xA0]"

text \<open>
  Flag \<^verbatim>\<open>i\<close>: all letters of the patterns are ASCII, and without the flag \<^verbatim>\<open>u\<close> an
  ASCII letter is matched by its two ASCII cases only.
\<close>

definition to_lower_ascii :: "char \<Rightarrow> char" where
  "to_lower_ascii c =
     (if CHR ''A'' \<le> c \<and> c \<le> CHR ''Z'' then char_of (of_char c + (32::nat)) else c)"

definition ci_eq :: "char \<Rightarrow> char \<Rightarrow> bool" where
  "ci_eq p c \<longleftrightarrow> to_lower_ascii p = to_lower_ascii c"

text \<open>A literal, case-insensitive when \<open>ci\<close> is set.\<close>

fun match_lit :: "bool \<Rightarrow> string \<Rightarrow> matcher" where
  "match_lit ci [] s = Some s"
| "match_lit ci (p # ps) [] = None"
| "match_lit ci (p # ps) (c # cs) =
     (if (if ci then ci_eq p c else p = c) then match_lit ci ps cs else None)"

text \<open>
  \<^verbatim>\<open>[^>]*?>\<close> and \<^verbatim>\<open>[^>]*>\<close> and \<^verbatim>\<open>[^>]*?\/?>\<close>: none of them can step over a
  \<^verbatim>\<open>>\<close>, so each ends at the first \<^verbatim>\<open>>\<close> of the text (a \<^verbatim>\<open>/\<close> before it is
  taken by the class or by \<^verbatim>\<open>\/?\<close>, with the same end).
\<close>

fun upto_gt :: matcher where
  "upto_gt [] = None"
| "upto_gt (c # cs) = (if c = CHR ''>'' then Some cs else upto_gt cs)"

text \<open>
  \<^verbatim>\<open>[\s\S]*?\<close> followed by \<open>m\<close>, and the search of an unanchored expression for its
  leftmost match: the first position at which \<open>m\<close> succeeds.
\<close>

fun first_match :: "(string \<Rightarrow> 'a option) \<Rightarrow> string \<Rightarrow> 'a option" where
  "first_match m [] = m []"
| "first_match m (c # cs) =
     (case m (c # cs) of Some r \<Rightarrow> Some r | None \<Rightarrow> first_match m cs)"

text \<open>
  \<^verbatim>\<open>s.replace(re, "")\<close> with the flag \<^verbatim>\<open>g\<close>: every match is dropped, the search goes on
  after it; an empty match drops nothing and the search moves one code unit on.
\<close>

function replace_all :: "matcher \<Rightarrow> string \<Rightarrow> string" where
  "replace_all m [] = []"
| "replace_all m (c # cs) =
     (case m (c # cs) of
        None \<Rightarrow> c # replace_all m cs
      | Some r \<Rightarrow> if length r \<le> length cs then replace_all m r else c # replace_all m cs)"
  by pat_completeness auto
termination
  by (relation "measure (\<lambda>(m, s). length s)") auto

text \<open>\<^verbatim>\<open>s.replace(re, "")\<close> without the flag \<^verbatim>\<open>g\<close>: the leftmost match only.\<close>

fun replace_first :: "matcher \<Rightarrow> string \<Rightarrow> string" where
  "replace_first m [] = []"
| "replace_first m (c # cs) =
     (case m (c # cs) of None \<Rightarrow> c # replace_first m cs | Some r \<Rightarrow> r)"

text \<open>\<^verbatim>\<open>/<\?xml[^>]*?>/gi\<close>\<close>

definition xml_decl :: matcher where
  "xml_decl s = Option.bind (match_lit True ''<?xml'' s) upto_gt"

text \<open>\<^verbatim>\<open>/<!--[\s\S]*?-->/g\<close>\<close>

definition comment :: matcher where
  "comment s = Option.bind (match_lit False ''<!--'' s) (first_match (match_lit False ''-->''))"

text \<open>\<^verbatim>\<open>/<!DOCTYPE[^>]*?>/gi\<close>\<close>

definition doctype :: matcher where
  "doctype s = Option.bind (match_lit True ''<!DOCTYPE'' s) upto_gt"

definition stripProlog :: "string \<Rightarrow> string" where
  "stripProlog svg = replace_all doctype (replace_all comment (replace_all xml_decl svg))"

text \<open>\<^verbatim>\<open>/<metadata[\s\S]*?<\/metadata>/gi\<close>\<close>

definition metadata :: matcher where
  "metadata s =
     Option.bind (match_lit True ''<metadata'' s) (first_match (match_lit True ''</metadata>''))"

text \<open>
  \<^verbatim>\<open>\s*\<close> before a letter: the greedy run of white space (giving characters back
  cannot help, the next item is a letter).
\<close>

definition skip_ws :: "string \<Rightarrow> string" where
  "skip_ws s = dropWhile is_space s"

text \<open>\<^verbatim>\<open>(?:sodipodi|inkscape):\<close> and \<^verbatim>\<open>(?:inkscape|sodipodi):\<close>\<close>

definition ns_prefix :: "string \<Rightarrow> string \<Rightarrow> matcher" where
  "ns_prefix a b s =
     Option.bind
       (case match_lit True a s of Some r \<Rightarrow> Some r | None \<Rightarrow> match_lit True b s)
       (match_lit False '':'')"

text \<open>\<^verbatim>\<open>/<\s*(?:sodipodi|inkscape):[^>]*?\/?>/gi\<close>\<close>

definition ns_open :: matcher where
  "ns_open s =
     Option.bind (match_lit False ''<'' s)
       (\<lambda>r. Option.bind (ns_prefix ''sodipodi'' ''inkscape'' (skip_ws r)) upto_gt)"

text \<open>\<^verbatim>\<open><\/\s*(?:sodipodi|inkscape):[^>]*?>\<close>\<close>

definition ns_close :: matcher where
  "ns_close s =
     Option.bind (match_lit False ''</'' s)
       (\<lambda>r. Option.bind (ns_prefix ''sodipodi'' ''inkscape'' (skip_ws r)) upto_gt)"

text \<open>
  \<^verbatim>\<open>/<\s*(?:sodipodi|inkscape):[^>]*?\/?>[\s\S]*?<\/\s*(?:sodipodi|inkscape):[^>]*?>/gi\<close>
\<close>

definition ns_pair :: matcher where
  "ns_pair s = Option.bind (ns_open s) (first_match ns_close)"

text \<open>
  \<^verbatim>\<open>/\s+(?:inkscape|sodipodi):[^=\s]+="[^"]*"/gi\<close>: the greedy classes end at the first
  character outside them, and a shorter run cannot be followed by the next literal.
\<close>

definition ns_attr :: matcher where
  \<open>ns_attr s =
     (case s of
        [] \<Rightarrow> None
      | c # cs \<Rightarrow>
          if is_space c then
            Option.bind (ns_prefix ''inkscape'' ''sodipodi'' (skip_ws cs))
              (\<lambda>r. if takeWhile (\<lambda>c. c \<noteq> CHR ''='' \<and> \<not> is_space c) r = [] then None
                    else Option.bind
                      (match_lit False ''="'' (dropWhile (\<lambda>c. c \<noteq> CHR ''='' \<and> \<not> is_space c) r))
                      (\<lambda>r. match_lit False ''"'' (dropWhile (\<lambda>c. c \<noteq> CHR ''"'') r)))
          else None)\<close>

definition sanitize :: "string \<Rightarrow> string" where
  "sanitize svg =
     replace_all ns_attr (replace_all ns_open (replace_all ns_pair (replace_all metadata svg)))"

text \<open>\<^verbatim>\<open>/<svg[^>]*>/i\<close> and \<^verbatim>\<open>/<\/svg>/i\<close>\<close>

definition svg_open :: matcher where
  "svg_open s = Option.bind (match_lit True ''<svg'' s) upto_gt"

definition svg_close :: matcher where
  "svg_close s = match_lit True ''</svg>'' s"

definition extractInner :: "string \<Rightarrow> string" where
  "extractInner svg = replace_first svg_close (replace_first svg_open svg)"

text \<open>The pipeline applied to a fragment: \<^verbatim>\<open>extractInner(sanitize(stripProlog(raw)))\<close>.\<close>

definition sanitized_inner :: "string \<Rightarrow> string" where
  "sanitized_inner raw = extractInner (sanitize (stripProlog raw))"


section \<open>Numbers and the view box\<close>

text \<open>
  A JavaScript number: a finite double, idealised as a real (rounding, overflow and the
  sign of zero are not represented: a zero divisor counts as \<^verbatim>\<open>+0\<close>), the two
  infinities and NaN.
\<close>

datatype jsnum = Fin real | PInf | NInf | NaN

fun jneg :: "jsnum \<Rightarrow> jsnum" where
  "jneg (Fin a) = Fin (- a)"
| "jneg PInf = NInf"
| "jneg NInf = PInf"
| "jneg NaN = NaN"

fun jadd :: "jsnum \<Rightarrow> jsnum \<Rightarrow> jsnum" where
  "jadd NaN b = NaN"
| "jadd a NaN = NaN"
| "jadd (Fin a) (Fin b) = Fin (a + b)"
| "jadd (Fin a) b = b"
| "jadd a (Fin b) = a"
| "jadd a b = (if a = b then a else NaN)"

definition jsub :: "jsnum \<Rightarrow> jsnum \<Rightarrow> jsnum" where
  "jsub a b = jadd a (jneg b)"

fun jmul :: "jsnum \<Rightarrow> jsnum \<Rightarrow> jsnum" where
  "jmul NaN b = NaN"
| "jmul a NaN = NaN"
| "jmul (Fin a) (Fin b) = Fin (a * b)"
| "jmul (Fin a) b = (if a = 0 then NaN else if 0 < a then b else jneg b)"
| "jmul a (Fin b) = (if b = 0 then NaN else if 0 < b then a else jneg a)"
| "jmul a b = (if a = b then PInf else NInf)"

fun jdiv :: "jsnum \<Rightarrow> jsnum \<Rightarrow> jsnum" where
  "jdiv NaN b = NaN"
| "jdiv a NaN = NaN"
| "jdiv (Fin a) (Fin b) =
     (if b \<noteq> 0 then Fin (a / b) else if a = 0 then NaN else if 0 < a then PInf else NInf)"
| "jdiv (Fin a) b = Fin 0"
| "jdiv a (Fin b) = (if 0 \<le> b then a else jneg a)"
| "jdiv a b = NaN"

text \<open>\<^verbatim>\<open>Math.min\<close> of two arguments: NaN as soon as one of them is.\<close>

fun jmin :: "jsnum \<Rightarrow> jsnum \<Rightarrow> jsnum" where
  "jmin NaN b = NaN"
| "jmin a NaN = NaN"
| "jmin NInf b = NInf"
| "jmin a NInf = NInf"
| "jmin PInf b = b"
| "jmin a PInf = a"
| "jmin (Fin a) (Fin b) = Fin (min a b)"

definition is_digit :: "char \<Rightarrow> bool" where
  "is_digit c \<longleftrightarrow> CHR ''0'' \<le> c \<and> c \<le> CHR ''9''"

definition digit_val :: "char \<Rightarrow> nat" where
  "digit_val c = of_char c - 48"

definition dec_val :: "string \<Rightarrow> nat" where
  "dec_val ds = foldl (\<lambda>n c. 10 * n + digit_val c) 0 ds"

text \<open>The exponent part of a decimal literal, 0 when there is none.\<close>

definition exponent_part :: "string \<Rightarrow> int" where
  "exponent_part r =
     (case r of
        [] \<Rightarrow> 0
      | c # r1 \<Rightarrow>
          if c = CHR ''e'' \<or> c = CHR ''E'' then
            (case r1 of
               [] \<Rightarrow> 0
             | d # r2 \<Rightarrow>
                 if d = CHR ''-'' then - int (dec_val (takeWhile is_digit r2))
                 else if d = CHR ''+'' then int (dec_val (takeWhile is_digit r2))
                 else int (dec_val (takeWhile is_digit r1)))
          else 0)"

definition scale10 :: "real \<Rightarrow> int \<Rightarrow> real" where
  "scale10 m e = (if 0 \<le> e then m * 10 ^ nat e else m / 10 ^ nat (- e))"

text \<open>
  \<^verbatim>\<open>parseFloat\<close>: leading white space is skipped, then the longest prefix that is a
  decimal literal (sign, \<^verbatim>\<open>Infinity\<close> or digits with an optional fraction and exponent)
  is read; NaN when there is none.  The value is the real number the literal denotes: a
  literal beyond the range of the doubles is not turned into \<^verbatim>\<open>Infinity\<close> or 0, and
  \<^verbatim>\<open>-0\<close> is 0.
\<close>

definition parse_unsigned :: "string \<Rightarrow> jsnum" where
  "parse_unsigned u =
     (if match_lit False ''Infinity'' u \<noteq> None then PInf
      else
        let ip = takeWhile is_digit u;
            r1 = dropWhile is_digit u;
            fp = (case r1 of [] \<Rightarrow> [] | c # r \<Rightarrow> if c = CHR ''.'' then takeWhile is_digit r else []);
            r2 = (case r1 of [] \<Rightarrow> [] | c # r \<Rightarrow> if c = CHR ''.'' then dropWhile is_digit r else r1)
        in if ip = [] \<and> fp = [] then NaN
           else Fin (scale10 (real (dec_val ip) + real (dec_val fp) / 10 ^ length fp)
                  (exponent_part r2)))"

definition parseFloat :: "string \<Rightarrow> jsnum" where
  "parseFloat s =
     (case dropWhile is_space s of
        [] \<Rightarrow> NaN
      | c # r \<Rightarrow>
          if c = CHR ''-'' then jneg (parse_unsigned r)
          else if c = CHR ''+'' then parse_unsigned r
          else parse_unsigned (c # r))"

text \<open>
  \<^verbatim>\<open>s.split(/\s+/)\<close>: \<open>sep\<close> is set while a run of white space is being skipped,
  \<open>cur\<close> is the piece read so far.
\<close>

fun split_ws_from :: "bool \<Rightarrow> string \<Rightarrow> string \<Rightarrow> string list" where
  "split_ws_from sep cur [] = [cur]"
| "split_ws_from sep cur (c # cs) =
     (if is_space c then
        (if sep then split_ws_from True cur cs else cur # split_ws_from True [] cs)
      else split_ws_from False (cur @ [c]) cs)"

definition split_ws :: "string \<Rightarrow> string list" where
  "split_ws s = split_ws_from False [] s"

text \<open>
  \<^verbatim>\<open>/viewBox="([^"]+)"/i\<close>: the value captured at a position, which has to be non-empty
  and closed by a quote.
\<close>

definition viewBox_attr :: "string \<Rightarrow> string option" where
  \<open>viewBox_attr s =
     Option.bind (match_lit True ''viewBox="'' s)
       (\<lambda>r. if takeWhile (\<lambda>c. c \<noteq> CHR ''"'') r = [] \<or> dropWhile (\<lambda>c. c \<noteq> CHR ''"'') r = []
             then None
             else Some (takeWhile (\<lambda>c. c \<noteq> CHR ''"'') r))\<close>

text \<open>
  The fields of the returned object.  An array pattern binds \<^verbatim>\<open>undefined\<close> (here
  \<open>None\<close>) to a name beyond the end of the array.
\<close>

record viewbox =
  minX :: "jsnum option"
  minY :: "jsnum option"
  width :: "jsnum option"
  height :: "jsnum option"

definition nth_opt :: "'a list \<Rightarrow> nat \<Rightarrow> 'a option" where
  "nth_opt xs i = (if i < length xs then Some (xs ! i) else None)"

definition default_box :: viewbox where
  "default_box =
     \<lparr>minX = Some (Fin 0), minY = Some (Fin 0), width = Some (Fin 400), height = Some (Fin 600)\<rparr>"

definition extractViewBox :: "string \<Rightarrow> viewbox" where
  "extractViewBox svg =
     (case first_match viewBox_attr svg of
        None \<Rightarrow> default_box
      | Some v \<Rightarrow>
          let ns = map parseFloat (split_ws v)
          in \<lparr>minX = nth_opt ns 0, minY = nth_opt ns 1, width = nth_opt ns 2,
              height = nth_opt ns 3\<rparr>)"

text \<open>An operand that is \<^verbatim>\<open>undefined\<close> converts to NaN.\<close>

definition to_number :: "jsnum option \<Rightarrow> jsnum" where
  "to_number v = (case v of None \<Rightarrow> NaN | Some n \<Rightarrow> n)"


section \<open>The layout of generate-catalog.mjs\<close>

text \<open>
  The layout counters are non-negative integers far below \<open>2^53\<close>, where doubles are
  exact: they are natural numbers here.
\<close>

definition padding :: nat where "padding = 24"
definition cols :: nat where "cols = 5"
definition thumbWidth :: nat where "thumbWidth = 180"
definition thumbHeight :: nat where "thumbHeight = 240"
definition labelHeight :: nat where "labelHeight = 18"
definition colWidth :: nat where "colWidth = 200"
definition blockHeight :: nat where "blockHeight = thumbHeight + labelHeight + 12"
definition categoryGap :: nat where "categoryGap = 32"
definition titleFont :: string where \<open>titleFont = ''font-family="Arial, sans-serif"''\<close>

definition innerW :: jsnum where "innerW = Fin (real (thumbWidth - 16))"
definition innerH :: jsnum where "innerH = Fin (real (thumbHeight - 32))"

text \<open>
  \<^verbatim>\<open>scale = Math.min(innerW / vb.width, innerH / vb.height)\<close>,
  \<^verbatim>\<open>tx = 8 + (innerW - vb.width * scale) / 2 - vb.minX * scale\<close> and
  \<^verbatim>\<open>ty = 8 + (innerH - vb.height * scale) / 2 - vb.minY * scale\<close>.
\<close>

definition fit_scale :: "viewbox \<Rightarrow> jsnum" where
  "fit_scale vb =
     jmin (jdiv innerW (to_number (width vb))) (jdiv innerH (to_number (height vb)))"

definition fit_tx :: "viewbox \<Rightarrow> jsnum" where
  "fit_tx vb =
     jsub (jadd (Fin 8) (jdiv (jsub innerW (jmul (to_number (width vb)) (fit_scale vb))) (Fin 2)))
       (jmul (to_number (minX vb)) (fit_scale vb))"

definition fit_ty :: "viewbox \<Rightarrow> jsnum" where
  "fit_ty vb =
     jsub (jadd (Fin 8) (jdiv (jsub innerH (jmul (to_number (height vb)) (fit_scale vb))) (Fin 2)))
       (jmul (to_number (minY vb)) (fit_scale vb))"

text \<open>
  The entries of \<^verbatim>\<open>chunks\<close>: a category title (with its \<^verbatim>\<open>x\<close>, \<^verbatim>\<open>y\<close> and text) or
  the group of one fragment (with \<^verbatim>\<open>x\<close>, \<^verbatim>\<open>yOffset\<close>, \<^verbatim>\<open>tx\<close>, \<^verbatim>\<open>ty\<close>,
  \<^verbatim>\<open>scale\<close>, \<^verbatim>\<open>inner\<close> and \<^verbatim>\<open>id\<close>).  The template strings are applied by
  \<open>render_chunk\<close> below.
\<close>

datatype chunk =
    is_title: TitleText nat nat string
  | is_block: FragmentBlock nat nat jsnum jsnum jsnum string string

definition starts_with :: "string \<Rightarrow> string \<Rightarrow> bool" where
  "starts_with p s \<longleftrightarrow> take (length p) s = p"

definition ends_with :: "string \<Rightarrow> string \<Rightarrow> bool" where
  "ends_with suf s \<longleftrightarrow> length suf \<le> length s \<and> drop (length s - length suf) s = suf"

text \<open>\<^verbatim>\<open>path.basename(file, ext)\<close> on the name of a directory entry, which has no slash.\<close>

definition basename :: "string \<Rightarrow> string \<Rightarrow> string" where
  "basename file ext =
     (if ext \<noteq> [] \<and> ends_with ext file then take (length file - length ext) file else file)"

definition fragment_block :: "nat \<Rightarrow> nat \<Rightarrow> string \<Rightarrow> string \<Rightarrow> chunk" where
  "fragment_block y idx file raw =
     (let clean = sanitize (stripProlog raw);
          vb = extractViewBox raw;
          inner = extractInner clean;
          col = idx mod cols;
          row = idx div cols;
          x = padding + col * colWidth;
          yOffset = y + row * blockHeight;
          ident = basename file ''.svg''
      in FragmentBlock x yOffset (fit_tx vb) (fit_ty vb) (fit_scale vb) inner ident)"

subsection \<open>The directory tree\<close>

datatype entry = File string | Dir "(string \<times> entry) list"

datatype error = ENOENT string | ENOTDIR string | EISDIR string | ImportFailed | ConversionFailed

text \<open>\<^verbatim>\<open>fs.readdirSync\<close> and \<^verbatim>\<open>fs.readFileSync\<close> of an entry of a listing.\<close>

definition readdirSync :: "entry option \<Rightarrow> string \<Rightarrow> error + (string \<times> entry) list" where
  "readdirSync e path =
     (case e of
        None \<Rightarrow> Inl (ENOENT path)
      | Some (File d) \<Rightarrow> Inl (ENOTDIR path)
      | Some (Dir es) \<Rightarrow> Inr es)"

definition readFileSync :: "entry option \<Rightarrow> string \<Rightarrow> error + string" where
  "readFileSync e path =
     (case e of
        None \<Rightarrow> Inl (ENOENT path)
      | Some (File d) \<Rightarrow> Inr d
      | Some (Dir es) \<Rightarrow> Inl (EISDIR path))"

definition isDirectory :: "entry option \<Rightarrow> bool" where
  "isDirectory e = (case e of Some (Dir es) \<Rightarrow> True | _ \<Rightarrow> False)"

text \<open>
  \<^verbatim>\<open>Array.prototype.sort\<close> with a comparison function: a stable sort, here by
  insertion.  Without one (on the category names) the order is that of the code units,
  which is \<open>sort\<close> on \<^typ>\<open>string\<close>.
\<close>

fun insort_cmp :: "('a \<Rightarrow> 'a \<Rightarrow> int) \<Rightarrow> 'a \<Rightarrow> 'a list \<Rightarrow> 'a list" where
  "insort_cmp cmp x [] = [x]"
| "insort_cmp cmp x (y # ys) = (if cmp x y \<le> 0 then x # y # ys else y # insort_cmp cmp x ys)"

definition sort_cmp :: "('a \<Rightarrow> 'a \<Rightarrow> int) \<Rightarrow> 'a list \<Rightarrow> 'a list" where
  "sort_cmp cmp xs = foldr (insort_cmp cmp) xs []"

definition categories :: "(string \<times> entry) list \<Rightarrow> string list" where
  "categories listing =
     sort (filter (\<lambda>name. \<not> starts_with ''.'' name \<and> isDirectory (map_of listing name))
             (map fst listing))"

text \<open>
  The member files of a category; \<open>localeCompare a b\<close> stands for
  \<^verbatim>\<open>a.localeCompare(b, undefined, { numeric: true })\<close>, which the platform provides;
  what the option \<^verbatim>\<open>numeric\<close> makes of it is \<open>numeric_collation\<close> below.
\<close>

definition member_files :: "(string \<Rightarrow> string \<Rightarrow> int) \<Rightarrow> (string \<times> entry) list \<Rightarrow> string list" where
  "member_files localeCompare dir =
     sort_cmp localeCompare (filter (ends_with ''.svg'') (map fst dir))"

text \<open>\<^verbatim>\<open>files.forEach((file, idx) => ...)\<close>: the first file that cannot be read ends the run.\<close>

fun fragments :: "(string \<times> entry) list \<Rightarrow> nat \<Rightarrow> nat \<Rightarrow> string list \<Rightarrow> error + chunk list" where
  "fragments dir y idx [] = Inr []"
| "fragments dir y idx (file # files) =
     (case readFileSync (map_of dir file) file of
        Inl e \<Rightarrow> Inl e
      | Inr raw \<Rightarrow>
          (case fragments dir y (Suc idx) files of
             Inl e \<Rightarrow> Inl e
           | Inr blocks \<Rightarrow> Inr (fragment_block y idx file raw # blocks)))"

text \<open>\<^verbatim>\<open>Math.ceil(files.length / cols)\<close>\<close>

definition row_count :: "nat \<Rightarrow> nat" where
  "row_count n = (n + cols - 1) div cols"

text \<open>
  \<^verbatim>\<open>for (const category of categories)\<close>, with the cursor \<^verbatim>\<open>y\<close> and \<^verbatim>\<open>chunks\<close>
  passed along.
\<close>

fun category_loop ::
  "(string \<Rightarrow> string \<Rightarrow> int) \<Rightarrow> (string \<times> entry) list \<Rightarrow> string list \<Rightarrow> nat \<Rightarrow> chunk list
     \<Rightarrow> error + nat \<times> chunk list" where
  "category_loop localeCompare listing [] y chunks = Inr (y, chunks)"
| "category_loop localeCompare listing (category # rest) y chunks =
     (case readdirSync (map_of listing category) category of
        Inl e \<Rightarrow> Inl e
      | Inr dir \<Rightarrow>
          (let files = member_files localeCompare dir in
           case fragments dir (y + 22) 0 files of
             Inl e \<Rightarrow> Inl e
           | Inr blocks \<Rightarrow>
               category_loop localeCompare listing rest
                 (y + 22 + (row_count (length files) * blockHeight + categoryGap))
                 (chunks @ [TitleText padding y category] @ blocks)))"

definition layout ::
  "(string \<Rightarrow> string \<Rightarrow> int) \<Rightarrow> entry option \<Rightarrow> error + nat \<times> chunk list" where
  "layout localeCompare svgRoot =
     (case readdirSync svgRoot ''svgs'' of
        Inl e \<Rightarrow> Inl e
      | Inr listing \<Rightarrow> category_loop localeCompare listing (categories listing) padding [])"

subsection \<open>Serialisation\<close>

text \<open>The decimal digits of an integer, as a template string writes it.\<close>

fun show_nat :: "nat \<Rightarrow> string" where
  "show_nat n =
     (if n < 10 then [char_of (48 + n)] else show_nat (n div 10) @ [char_of (48 + n mod 10)])"

declare show_nat.simps [simp del]

text \<open>
  \<open>num_str\<close> stands for the conversion of a double to a string (of the platform), used
  for \<^verbatim>\<open>tx\<close>, \<^verbatim>\<open>ty\<close> and \<^verbatim>\<open>scale\<close>.
\<close>

fun render_chunk :: "(jsnum \<Rightarrow> string) \<Rightarrow> chunk \<Rightarrow> string" where
  \<open>render_chunk num_str (TitleText x y category) =
     ''<text x="'' @ show_nat x @ ''" y="'' @ show_nat y @ ''" '' @ titleFont
       @ '' font-size="18" font-weight="bold">'' @ category @ ''</text>''\<close>
| \<open>render_chunk num_str (FragmentBlock x yOffset tx ty scale inner ident) =
     ''<g transform="translate('' @ show_nat x @ '' '' @ show_nat yOffset @ '')">''
       @ ''<rect width="'' @ show_nat thumbWidth @ ''" height="'' @ show_nat thumbHeight
       @ ''" rx="8" ry="8" fill="#f7f7f7" stroke="#ddd"/>''
       @ ''<g transform="translate('' @ num_str tx @ '' '' @ num_str ty @ '') scale(''
       @ num_str scale @ '')">''
       @ inner
       @ ''</g>''
       @ ''<text x="'' @ show_nat (thumbWidth div 2) @ ''" y="'' @ show_nat (thumbHeight - 6)
       @ ''" '' @ titleFont @ '' font-size="14" text-anchor="middle" fill="#333">'' @ ident
       @ ''</text>''
       @ ''</g>''\<close>

fun join :: "string \<Rightarrow> string list \<Rightarrow> string" where
  "join sep [] = []"
| "join sep [x] = x"
| "join sep (x # y # ys) = x @ sep @ join sep (y # ys)"

definition svg_header :: "nat \<Rightarrow> nat \<Rightarrow> string" where
  \<open>svg_header w h =
     ''<svg xmlns="http://www.w3.org/2000/svg" width="'' @ show_nat w @ ''" height="''
       @ show_nat h @ ''" viewBox="0 0 '' @ show_nat w @ '' '' @ show_nat h @ ''">''\<close>

definition canvas_width :: nat where
  "canvas_width = padding * 2 + cols * colWidth"

definition document :: "(jsnum \<Rightarrow> string) \<Rightarrow> nat \<times> chunk list \<Rightarrow> string" where
  "document num_str yc =
     svg_header canvas_width (fst yc + padding) @ [CHR 0x0A]
       @ join [CHR 0x0A] (map (render_chunk num_str) (snd yc)) @ [CHR 0x0A] @ ''</svg>''
       @ [CHR 0x0A]"

subsection \<open>The run and its effects\<close>

text \<open>
  The state a run acts on: the directory \<^verbatim>\<open>svgRoot\<close> (paths are written relative to it)
  and the lines sent to the console.
\<close>

datatype line = Log string | Warn string | Err error

record world =
  svgs :: "entry option"
  console :: "line list"

definition writeFileSync :: "world \<Rightarrow> string \<Rightarrow> string \<Rightarrow> error + world" where
  "writeFileSync w path data =
     (case svgs w of
        None \<Rightarrow> Inl (ENOENT path)
      | Some (File d) \<Rightarrow> Inl (ENOTDIR path)
      | Some (Dir es) \<Rightarrow>
          if isDirectory (map_of es path) then Inl (EISDIR path)
          else Inr (w\<lparr>svgs := Some (Dir (AList.update path (File data) es))\<rparr>))"

definition read_in_root :: "world \<Rightarrow> string \<Rightarrow> error + string" where
  "read_in_root w path =
     (case svgs w of
        None \<Rightarrow> Inl (ENOENT path)
      | Some (File d) \<Rightarrow> Inl (ENOTDIR path)
      | Some (Dir es) \<Rightarrow> readFileSync (map_of es path) path)"

definition console_log :: "world \<Rightarrow> line \<Rightarrow> world" where
  "console_log w l = w\<lparr>console := console w @ [l]\<rparr>"

text \<open>
  The rasterisation engine: \<open>None\<close> when \<^verbatim>\<open>import("sharp")\<close> fails, else the conversion
  of the SVG text, \<open>None\<close> when it throws.
\<close>

type_synonym engine = "(string \<Rightarrow> string option) option"

text \<open>The body of the \<^verbatim>\<open>try\<close> block of \<^verbatim>\<open>tryWritePng\<close>; \<open>Inl\<close> is what it throws.\<close>

definition png_attempt :: "engine \<Rightarrow> world \<Rightarrow> string \<Rightarrow> string \<Rightarrow> error + world" where
  "png_attempt sharp w svgPath pngPath =
     (case sharp of
        None \<Rightarrow> Inl ImportFailed
      | Some convert \<Rightarrow>
          (case read_in_root w svgPath of
             Inl e \<Rightarrow> Inl e
           | Inr svgBuffer \<Rightarrow>
               (case convert svgBuffer of
                  None \<Rightarrow> Inl ConversionFailed
                | Some png \<Rightarrow>
                    (case writeFileSync w pngPath png of
                       Inl e \<Rightarrow> Inl e
                     | Inr w' \<Rightarrow> Inr (console_log w' (Log (''Wrote '' @ pngPath)))))))"

definition skip_message :: "string \<Rightarrow> string" where
  "skip_message pngPath =
     ''Skipping PNG output for '' @ pngPath
       @ ''. Install sharp to enable PNG export (pnpm add -D sharp).''"

definition tryWritePng :: "engine \<Rightarrow> world \<Rightarrow> string \<Rightarrow> string \<Rightarrow> world" where
  "tryWritePng sharp w svgPath pngPath =
     (case png_attempt sharp w svgPath pngPath of
        Inr w' \<Rightarrow> w'
      | Inl e \<Rightarrow> console_log w (Warn (skip_message pngPath)))"

definition outputPath :: string where
  "outputPath = ''catalog.svg''"

text \<open>\<^verbatim>\<open>outputPath.replace(/\.svg$/i, ".png")\<close>\<close>

definition png_path :: "string \<Rightarrow> string" where
  "png_path p =
     (if 4 \<le> length p \<and> match_lit True ''.svg'' (drop (length p - 4) p) = Some []
      then take (length p - 4) p @ ''.png'' else p)"

text \<open>
  \<^verbatim>\<open>main\<close> with the handler of its rejection: the new state and the exit code of the
  process.
\<close>

definition main ::
  "(string \<Rightarrow> string \<Rightarrow> int) \<Rightarrow> (jsnum \<Rightarrow> string) \<Rightarrow> engine \<Rightarrow> world \<Rightarrow> world \<times> nat" where
  "main localeCompare num_str sharp w =
     (case layout localeCompare (svgs w) of
        Inl e \<Rightarrow> (console_log w (Err e), 1)
      | Inr yc \<Rightarrow>
          (case writeFileSync w outputPath (document num_str yc) of
             Inl e \<Rightarrow> (console_log w (Err e), 1)
           | Inr w1 \<Rightarrow>
               (tryWritePng sharp (console_log w1 (Log (''Wrote '' @ outputPath))) outputPath
                  (png_path outputPath), 0)))"


subsection \<open>A comparison function for the examples\<close>

text \<open>
  A numeric-aware comparison in the manner of \<^verbatim>\<open>localeCompare\<close> with
  \<^verbatim>\<open>{ numeric: true }\<close>: a run of digits is compared by its value and sorts before any
  other character.  It instantiates the comparison function in the examples below.
\<close>

function natural_key :: "string \<Rightarrow> (nat \<times> nat) list" where
  "natural_key [] = []"
| "natural_key (c # cs) =
     (if is_digit c then (0, dec_val (takeWhile is_digit (c # cs))) # natural_key (dropWhile is_digit cs)
      else (1, of_char c) # natural_key cs)"
  by pat_completeness auto
termination
  by (relation "measure length") (auto intro: le_imp_less_Suc length_dropWhile_le)

definition natural_compare :: "string \<Rightarrow> string \<Rightarrow> int" where
  "natural_compare a b =
     (if natural_key a < natural_key b then - 1 else if natural_key a = natural_key b then 0 else 1)"


subsection \<open>The option \<^verbatim>\<open>numeric\<close> of the comparison\<close>

text \<open>
  The comparison of line 82 is the platform's collation with the option
  \<^verbatim>\<open>{ numeric: true }\<close>.  What that option means is written down here: when two names
  agree up to a run of decimal digits and the two runs differ in value, the name with
  the smaller value comes first (\<^verbatim>\<open>part2\<close> before \<^verbatim>\<open>part10\<close>).  \<open>numeric_less a b\<close>
  says that \<open>a\<close> and \<open>b\<close> are such a pair: after their longest common prefix, less
  the digits it ends with, both go on with a run of digits, and the run of \<open>a\<close> has the
  smaller value.
\<close>

fun common_prefix :: "string \<Rightarrow> string \<Rightarrow> string" where
  "common_prefix (x # xs) (y # ys) = (if x = y then x # common_prefix xs ys else [])"
| "common_prefix xs ys = []"

definition numeric_less :: "string \<Rightarrow> string \<Rightarrow> bool" where
  "numeric_less a b \<longleftrightarrow>
     (let p = rev (dropWhile is_digit (rev (common_prefix a b)));
          da = takeWhile is_digit (drop (length p) a);
          db = takeWhile is_digit (drop (length p) b)
      in da \<noteq> [] \<and> db \<noteq> [] \<and> dec_val da < dec_val db)"

text \<open>
  The contract of \<^verbatim>\<open>a.localeCompare(b, undefined, { numeric: true })\<close> on a set of
  names: the comparison is total and transitive, its sign turns with its arguments, and
  it follows the value of the digits.
\<close>

definition numeric_collation :: "(string \<Rightarrow> string \<Rightarrow> int) \<Rightarrow> string set \<Rightarrow> bool" where
  "numeric_collation localeCompare names \<longleftrightarrow>
     (\<forall>a\<in>names. \<forall>b\<in>names. localeCompare a b \<le> 0 \<or> localeCompare b a \<le> 0)
     \<and> (\<forall>a\<in>names. \<forall>b\<in>names. \<forall>c\<in>names.
           localeCompare a b \<le> 0 \<longrightarrow> localeCompare b c \<le> 0 \<longrightarrow> localeCompare a c \<le> 0)
     \<and> (\<forall>a\<in>names. \<forall>b\<in>names. localeCompare a b < 0 \<longrightarrow> 0 < localeCompare b a)
     \<and> (\<forall>a\<in>names. \<forall>b\<in>names. numeric_less a b \<longrightarrow> localeCompare a b < 0)"

subsection \<open>Text that the sanitiser leaves alone\<close>

text \<open>
  An expression occurs in a text when it matches at some position; a text is free of
  residue when none of the expressions of \<^verbatim>\<open>stripProlog\<close>, \<^verbatim>\<open>sanitize\<close> and
  \<^verbatim>\<open>extractInner\<close> occurs in it.
\<close>

definition occurs :: "matcher \<Rightarrow> string \<Rightarrow> bool" where
  "occurs m s \<longleftrightarrow> first_match m s \<noteq> None"

definition residue_free :: "string \<Rightarrow> bool" where
  "residue_free s \<longleftrightarrow>
     \<not> occurs xml_decl s \<and> \<not> occurs comment s \<and> \<not> occurs doctype s
     \<and> \<not> occurs metadata s \<and> \<not> occurs ns_pair s \<and> \<not> occurs ns_open s
     \<and> \<not> occurs ns_attr s \<and> \<not> occurs svg_open s \<and> \<not> occurs svg_close s"

text \<open>A matcher consumes when every match is a non-empty piece of the text.\<close>

definition consumes :: "matcher \<Rightarrow> bool" where
  "consumes m \<longleftrightarrow> (\<forall>s r. m s = Some r \<longrightarrow> length r < length s)"

subsection \<open>The height a category takes\<close>

text \<open>
  The listing of a category and what one pass of the loop adds to the cursor: the title
  row, the rows of blocks and the gap.
\<close>

definition directory_of :: "(string \<times> entry) list \<Rightarrow> string \<Rightarrow> (string \<times> entry) list" where
  "directory_of listing name = (case map_of listing name of Some (Dir es) \<Rightarrow> es | _ \<Rightarrow> [])"

definition category_height ::
  "(string \<Rightarrow> string \<Rightarrow> int) \<Rightarrow> (string \<times> entry) list \<Rightarrow> string \<Rightarrow> nat" where
  "category_height localeCompare listing category =
     22 + (row_count (length (member_files localeCompare (directory_of listing category)))
             * blockHeight + categoryGap)"

subsection \<open>Counting in a text\<close>

text \<open>The number of positions of a text at which \<open>p\<close> starts.\<close>

fun count_from :: "nat \<Rightarrow> string \<Rightarrow> string \<Rightarrow> nat" where
  "count_from n p [] = n"
| "count_from n p (c # cs) =
     count_from (case match_lit False p (c # cs) of None \<Rightarrow> n | Some r \<Rightarrow> Suc n) p cs"

definition count_sub :: "string \<Rightarrow> string \<Rightarrow> nat" where
  "count_sub p s = count_from 0 p s"

subsection \<open>The files of the scenario\<close>

text \<open>
  An instance of the scenario with two categories: the directory as it may be listed, the
  conversion of the seven numbers that occur in it to strings, and the document that is
  expected for it.
\<close>

definition scenario_world :: world where
  \<open>scenario_world =
     \<lparr>svgs = Some (Dir
        [(''mouths'', Dir [(''smile.svg'', File ''<svg viewBox="0 0 200 50"><path/></svg>'')]),
         (''eyes'', Dir [(''right.svg'', File ''<svg viewBox="0 0 50 200"><circle/></svg>''),
                        (''left.svg'', File ''<svg viewBox="0 0 100 100"><rect/></svg>'')])]),
      console = []\<rparr>\<close>

definition scenario_num_str :: "jsnum \<Rightarrow> string" where
  "scenario_num_str n =
     (if n = Fin 8 then ''8'' else if n = Fin 30 then ''30'' else if n = Fin 64 then ''64''
      else if n = Fin (41 / 25) then ''1.64'' else if n = Fin (26 / 25) then ''1.04''
      else if n = Fin (183 / 2) then ''91.5'' else if n = Fin (41 / 50) then ''0.82''
      else ''NaN'')"

definition scenario_document :: string where
  \<open>scenario_document =
     ''<svg xmlns="http://www.w3.org/2000/svg" width="1048" height="696" viewBox="0 0 1048 696">''
     @ [CHR 0x0A]
     @ ''<text x="24" y="24" font-family="Arial, sans-serif" font-size="18" font-weight="bold">eyes</text>''
     @ [CHR 0x0A]
     @ ''<g transform="translate(24 46)"><rect width="180" height="240" rx="8" ry="8" fill="#f7f7f7" stroke="#ddd"/><g transform="translate(8 30) scale(1.64)"><rect/></g><text x="90" y="234" font-family="Arial, sans-serif" font-size="14" text-anchor="middle" fill="#333">left</text></g>''
     @ [CHR 0x0A]
     @ ''<g transform="translate(224 46)"><rect width="180" height="240" rx="8" ry="8" fill="#f7f7f7" stroke="#ddd"/><g transform="translate(64 8) scale(1.04)"><circle/></g><text x="90" y="234" font-family="Arial, sans-serif" font-size="14" text-anchor="middle" fill="#333">right</text></g>''
     @ [CHR 0x0A]
     @ ''<text x="24" y="348" font-family="Arial, sans-serif" font-size="18" font-weight="bold">mouths</text>''
     @ [CHR 0x0A]
     @ ''<g transform="translate(24 370)"><rect width="180" height="240" rx="8" ry="8" fill="#f7f7f7" stroke="#ddd"/><g transform="translate(8 91.5) scale(0.82)"><path/></g><text x="90" y="234" font-family="Arial, sans-serif" font-size="14" text-anchor="middle" fill="#333">smile</text></g>''
     @ [CHR 0x0A] @ ''</svg>'' @ [CHR 0x0A]\<close>

section \<open>replaceFeatureIds\<close>

text \<open>
  The objects that \<^verbatim>\<open>replaceFeatureIds\<close> reads and writes live in a store, so that
  a write to an object shows in every reference to it.  \<^verbatim>\<open>FaceConfig\<close>
  (\<^verbatim>\<open>./common.js\<close>) is not among the sources: a face is an object whose properties hold
  primitive values or references to feature objects, and a feature object (or an array
  such as \<^verbatim>\<open>teamColors\<close>, with its indices as keys) holds primitive values.  An object
  is the list of its own properties in their order; an address is an index into the
  store.
\<close>

datatype prim = PUndefined | PNull | PBool bool | PNum jsnum | PStr string

datatype slot = Prim prim | Ref nat

type_synonym face_object = "(string \<times> slot) list"

type_synonym feature_object = "(string \<times> prim) list"

record store =
  faces :: "face_object list"
  features :: "feature_object list"

text \<open>The addresses a face object refers to.\<close>

fun ref_targets :: "face_object \<Rightarrow> nat list" where
  "ref_targets [] = []"
| "ref_targets ((k, Prim p) # props) = ref_targets props"
| "ref_targets ((k, Ref a) # props) = a # ref_targets props"

text \<open>
  Modelled from the spec: \<^verbatim>\<open>deepCopy\<close> (\<^verbatim>\<open>./utils.js\<close>) is not among the sources.
  By its name and by the comment of \<^verbatim>\<open>replaceFeatureIds\<close> (``Return a copy of a face
  with specified feature IDs replaced''), it returns a new object with the properties of
  its argument, in which every object the argument refers to is replaced by a new object
  with the same properties.  \<open>copy_fields\<close> allocates the copies of the feature
  objects, \<open>deepCopy\<close> then the copy of the face; \<open>None\<close> stands for an argument
  that is no object of the store or refers outside of it.
\<close>

fun copy_fields :: "feature_object list \<Rightarrow> face_object \<Rightarrow> feature_object list \<times> face_object" where
  "copy_fields feats [] = (feats, [])"
| "copy_fields feats ((k, Prim p) # props) =
     (case copy_fields feats props of (feats', props') \<Rightarrow> (feats', (k, Prim p) # props'))"
| "copy_fields feats ((k, Ref a) # props) =
     (case copy_fields (feats @ [feats ! a]) props of
        (feats', props') \<Rightarrow> (feats', (k, Ref (length feats)) # props'))"

definition deepCopy :: "store \<Rightarrow> nat \<Rightarrow> (store \<times> nat) option" where
  "deepCopy st face =
     (if face < length (faces st)
         \<and> list_all (\<lambda>a. a < length (features st)) (ref_targets (faces st ! face))
      then
        (case copy_fields (features st) (faces st ! face) of
           (feats', props') \<Rightarrow>
             Some (\<lparr>faces = faces st @ [props'], features = feats'\<rparr>, length (faces st)))
      else None)"

text \<open>\<^verbatim>\<open>!newId\<close> is false for a truthy value.\<close>

fun truthy :: "prim \<Rightarrow> bool" where
  "truthy PUndefined = False"
| "truthy PNull = False"
| "truthy (PBool b) = b"
| "truthy (PNum n) = (n \<noteq> Fin 0 \<and> n \<noteq> NaN)"
| "truthy (PStr s) = (s \<noteq> [])"

text \<open>
  One pass of the loop over \<^verbatim>\<open>Object.entries(replacements)\<close>.  The test
  \<^verbatim>\<open>next[key] && typeof next[key] === "object"\<close> holds exactly when the property is a
  reference to an object (\<^verbatim>\<open>null\<close> is falsy, an absent property is \<^verbatim>\<open>undefined\<close>);
  then \<^verbatim>\<open>next[key].id = newId\<close> writes the property \<^verbatim>\<open>id\<close> of that object.
\<close>

definition replace_step :: "nat \<Rightarrow> string \<times> prim \<Rightarrow> store \<Rightarrow> store" where
  "replace_step next entry st =
     (case entry of
        (feature, newId) \<Rightarrow>
          if \<not> truthy newId then st
          else
            (case map_of (faces st ! next) feature of
               Some (Ref a) \<Rightarrow>
                 st\<lparr>features := (features st)[a := AList.update ''id'' newId (features st ! a)]\<rparr>
             | _ \<Rightarrow> st))"

definition replaceFeatureIds :: "store \<Rightarrow> nat \<Rightarrow> (string \<times> prim) list \<Rightarrow> (store \<times> nat) option" where
  "replaceFeatureIds st face replacements =
     (case deepCopy st face of
        None \<Rightarrow> None
      | Some (st1, next) \<Rightarrow> Some (fold (replace_step next) replacements st1, next))"

text \<open>
  What the replacements make of the feature object at a key: the property \<^verbatim>\<open>id\<close> is
  set when the key has a truthy replacement.
\<close>

definition replaced :: "(string \<times> prim) list \<Rightarrow> string \<Rightarrow> feature_object \<Rightarrow> feature_object" where
  "replaced replacements key obj =
     (case map_of replacements key of
        None \<Rightarrow> obj
      | Some newId \<Rightarrow> if truthy newId then AList.update ''id'' newId obj else obj)"

text \<open>
  What \<open>copy_fields\<close> returns: the store is extended, the copy has the keys and the
  primitive values of the original, and each reference of the copy points to a new
  object of its own that equals the one the original refers to.
\<close>

definition copies ::
  "feature_object list \<Rightarrow> face_object \<Rightarrow> feature_object list \<Rightarrow> face_object \<Rightarrow> bool" where
  "copies feats props feats' props' \<longleftrightarrow>
     length feats \<le> length feats'
     \<and> take (length feats) feats' = feats
     \<and> map fst props' = map fst props
     \<and> (\<forall>a'\<in>set (ref_targets props'). length feats \<le> a' \<and> a' < length feats')
     \<and> distinct (ref_targets props')
     \<and> (\<forall>k. case map_of props k of
              None \<Rightarrow> map_of props' k = None
            | Some (Prim p) \<Rightarrow> map_of props' k = Some (Prim p)
            | Some (Ref a) \<Rightarrow> (\<exists>a'. map_of props' k = Some (Ref a') \<and> feats' ! a' = feats ! a))"

section \<open>The fit transform\<close>

text \<open>
  C1: for a view box with finite entries and positive width \<open>w\<close> and height \<open>h\<close>,
  the scale is \<open>min (W / w) (H / h)\<close> for the inner area
  \<open>(W, H) = (thumbWidth - 16, thumbHeight - 32)\<close>; the scaled view box fits into the
  inner area, and the translation centres it there: a point \<open>(px, py)\<close> of the fragment
  is drawn at \<open>(tx + px * s, ty + py * s)\<close> in the cell, the inner area starts at
  \<open>(8, 8)\<close>, and the margin left of (above) the scaled view box equals the margin
  right of (below) it, whatever \<open>minX\<close> and \<open>minY\<close> are.
\<close>

theorem fit_centres_view_box:
  assumes "minX vb = Some (Fin x0)" and "minY vb = Some (Fin y0)"
    and "width vb = Some (Fin w)" and "height vb = Some (Fin h)"
    and "0 < w" and "0 < h"
  shows "\<exists>s tx ty. fit_scale vb = Fin s \<and> fit_tx vb = Fin tx \<and> fit_ty vb = Fin ty
     \<and> s = min (real (thumbWidth - 16) / w) (real (thumbHeight - 32) / h)
     \<and> w * s \<le> real (thumbWidth - 16) \<and> h * s \<le> real (thumbHeight - 32)
     \<and> (tx + x0 * s) - 8 = (8 + real (thumbWidth - 16)) - (tx + (x0 + w) * s)
     \<and> (ty + y0 * s) - 8 = (8 + real (thumbHeight - 32)) - (ty + (y0 + h) * s)"
proof -
  define s where "s = min (164 / w) (208 / h)"
  have sc: "fit_scale vb = Fin s"
    using assms
    by (simp add: fit_scale_def innerW_def innerH_def thumbWidth_def thumbHeight_def
        to_number_def s_def)
  have "s \<le> 164 / w" and "s \<le> 208 / h"
    by (simp_all add: s_def)
  then have fits: "w * s \<le> 164" "h * s \<le> 208"
    using assms(5,6) by (simp_all add: pos_le_divide_eq mult.commute)
  have tx: "fit_tx vb = Fin (8 + (164 - w * s) / 2 - x0 * s)"
    using assms(1,3) sc
    by (simp add: fit_tx_def jsub_def innerW_def thumbWidth_def to_number_def)
  have ty: "fit_ty vb = Fin (8 + (208 - h * s) / 2 - y0 * s)"
    using assms(2,4) sc
    by (simp add: fit_ty_def jsub_def innerH_def thumbHeight_def to_number_def)
  have cx: "((8 + (164 - w * s) / 2 - x0 * s) + x0 * s) - 8
      = (8 + 164) - ((8 + (164 - w * s) / 2 - x0 * s) + (x0 + w) * s)"
    by (simp add: algebra_simps)
  have cy: "((8 + (208 - h * s) / 2 - y0 * s) + y0 * s) - 8
      = (8 + 208) - ((8 + (208 - h * s) / 2 - y0 * s) + (y0 + h) * s)"
    by (simp add: algebra_simps)
  have W: "real (thumbWidth - 16) = 164" and H: "real (thumbHeight - 32) = 208"
    by (simp_all add: thumbWidth_def thumbHeight_def)
  show ?thesis
    unfolding W H using sc tx ty fits cx cy s_def by blast
qed

theorem fit_centres_view_box_witness:
  "(0::real) < 50 \<and> (0::real) < 200 \<and>
   (\<exists>s tx ty.
      fit_scale \<lparr>minX = Some (Fin 0), minY = Some (Fin 0), width = Some (Fin 50),
        height = Some (Fin 200)\<rparr> = Fin s
      \<and> fit_tx \<lparr>minX = Some (Fin 0), minY = Some (Fin 0), width = Some (Fin 50),
        height = Some (Fin 200)\<rparr> = Fin tx
      \<and> fit_ty \<lparr>minX = Some (Fin 0), minY = Some (Fin 0), width = Some (Fin 50),
        height = Some (Fin 200)\<rparr> = Fin ty
      \<and> s = min (real (thumbWidth - 16) / 50) (real (thumbHeight - 32) / 200)
      \<and> 50 * s \<le> real (thumbWidth - 16) \<and> 200 * s \<le> real (thumbHeight - 32)
      \<and> (tx + 0 * s) - 8 = (8 + real (thumbWidth - 16)) - (tx + (0 + 50) * s)
      \<and> (ty + 0 * s) - 8 = (8 + real (thumbHeight - 32)) - (ty + (0 + 200) * s))"
  using fit_centres_view_box [of
      "\<lparr>minX = Some (Fin 0), minY = Some (Fin 0), width = Some (Fin 50), height = Some (Fin 200)\<rparr>"
      0 0 50 200]
  by simp

section \<open>A category without member files\<close>

text \<open>
  C5, as the claim states it, fails: for a single empty category the cursor ends at
  \<open>padding + 22 + categoryGap\<close>, not at \<open>padding + 22\<close>.
\<close>

theorem empty_category_counterexample:
  "layout natural_compare (Some (Dir [(''eyes'', Dir [])]))
     = Inr (padding + 22 + categoryGap, [TitleText padding padding ''eyes''])
   \<and> padding + 22 + categoryGap \<noteq> padding + 22"
  by code_simp

text \<open>
  C5, amended: the pass of the loop over a category with no member files appends exactly
  one title to \<^verbatim>\<open>chunks\<close> and no fragment block, and moves the cursor by the height
  of the title row (22) plus the gap between categories (32), with no row of blocks in
  between.
\<close>

theorem empty_category_step:
  assumes "map_of listing category = Some (Dir dir)"
    and "member_files localeCompare dir = []"
  shows "category_loop localeCompare listing (category # rest) y chunks
     = category_loop localeCompare listing rest (y + 22 + categoryGap)
         (chunks @ [TitleText padding y category])"
  using assms by (simp add: readdirSync_def row_count_def cols_def)

theorem empty_category_step_witness:
  "map_of [(''eyes'', Dir [])] ''eyes'' = Some (Dir [])
   \<and> member_files natural_compare [] = []
   \<and> category_loop natural_compare [(''eyes'', Dir [])] [''eyes''] 24 []
       = Inr (24 + 22 + categoryGap, [TitleText padding 24 ''eyes''])"
  using empty_category_step [of "[(''eyes'', Dir [])]" "''eyes''" "[]" natural_compare "[]" 24 "[]"]
  by (simp add: member_files_def sort_cmp_def)

section \<open>The view box of a fragment\<close>

lemma extractViewBox_absent:
  "first_match viewBox_attr svg = None \<Longrightarrow> extractViewBox svg = default_box"
  by (simp add: extractViewBox_def)

text \<open>
  C6, as the claim states it, fails at a fragment whose \<^verbatim>\<open>viewBox\<close> separates its
  numbers by commas: the value is not four numbers separated by white space, and
  \<^verbatim>\<open>extractViewBox\<close> does not return the default box but a box with \<^verbatim>\<open>minX = 0\<close>
  and the three other fields undefined, from which the scale is NaN.
\<close>

theorem extractViewBox_unparsable:
  \<open>extractViewBox ''<svg viewBox="0,0,400,600"></svg>''
     = \<lparr>minX = Some (Fin 0), minY = None, width = None, height = None\<rparr>
   \<and> extractViewBox ''<svg viewBox="0,0,400,600"></svg>'' \<noteq> default_box
   \<and> fit_scale (extractViewBox ''<svg viewBox="0,0,400,600"></svg>'') = NaN\<close>
proof -
  have a: \<open>extractViewBox ''<svg viewBox="0,0,400,600"></svg>''
     = \<lparr>minX = Some (Fin 0), minY = None, width = None, height = None\<rparr>\<close>
    by code_simp
  show ?thesis
    unfolding a by (simp add: default_box_def fit_scale_def to_number_def innerW_def)
qed

lemma all_le_Suc: "(\<forall>i\<le>Suc n. P i) \<longleftrightarrow> P 0 \<and> (\<forall>j\<le>n. P (Suc j))"
proof
  assume "\<forall>i\<le>Suc n. P i"
  then show "P 0 \<and> (\<forall>j\<le>n. P (Suc j))" by simp
next
  assume a: "P 0 \<and> (\<forall>j\<le>n. P (Suc j))"
  show "\<forall>i\<le>Suc n. P i"
  proof (intro allI impI)
    fix i assume "i \<le> Suc n"
    then show "P i" using a by (cases i) simp_all
  qed
qed

lemma first_match_None_iff:
  "first_match m s = None \<longleftrightarrow> (\<forall>i\<le>length s. m (drop i s) = None)"
proof (induction s)
  case Nil
  then show ?case by simp
next
  case (Cons c cs)
  have "(\<forall>i\<le>length (c # cs). m (drop i (c # cs)) = None)
      \<longleftrightarrow> m (c # cs) = None \<and> (\<forall>j\<le>length cs. m (drop j cs) = None)"
    using all_le_Suc [of "length cs" "\<lambda>i. m (drop i (c # cs)) = None"] by simp
  then show ?case
    using Cons.IH by (cases "m (c # cs)") simp_all
qed

text \<open>
  C6, amended: for every fragment in whose raw text the expression
  \<^verbatim>\<open>viewBox="([^"]+)"\<close> matches at no position (there is no \<^verbatim>\<open>viewBox\<close> attribute, or
  its value is empty or not closed), \<^verbatim>\<open>extractViewBox\<close> returns the default box
  \<open>(0, 0, 400, 600)\<close>.
\<close>

theorem extractViewBox_without_attribute:
  assumes "\<forall>i\<le>length svg. viewBox_attr (drop i svg) = None"
  shows "extractViewBox svg
     = \<lparr>minX = Some (Fin 0), minY = Some (Fin 0), width = Some (Fin 400), height = Some (Fin 600)\<rparr>"
proof -
  have "first_match viewBox_attr svg = None"
    using assms by (simp only: first_match_None_iff)
  then show ?thesis
    by (simp add: extractViewBox_def default_box_def)
qed

lemma example_no_view_box:
  \<open>first_match viewBox_attr ''<svg width="400" viewBox=""><path/></svg>'' = None\<close>
  by code_simp

theorem extractViewBox_without_attribute_witness:
  \<open>first_match viewBox_attr ''<svg width="400" viewBox=""><path/></svg>'' = None
   \<and> extractViewBox ''<svg width="400" viewBox=""><path/></svg>''
     = \<lparr>minX = Some (Fin 0), minY = Some (Fin 0), width = Some (Fin 400), height = Some (Fin 600)\<rparr>\<close>
proof -
  have h: \<open>\<forall>i\<le>length ''<svg width="400" viewBox=""><path/></svg>''.
      viewBox_attr (drop i ''<svg width="400" viewBox=""><path/></svg>'') = None\<close>
    using example_no_view_box by (simp only: first_match_None_iff)
  from extractViewBox_without_attribute [OF h] example_no_view_box show ?thesis
    by blast
qed

section \<open>The run: files written and the exit code\<close>

lemma writeFileSync_svgs:
  "writeFileSync w p d = Inr w1 \<Longrightarrow>
   \<exists>es. svgs w = Some (Dir es) \<and> \<not> isDirectory (map_of es p)
     \<and> w1 = w\<lparr>svgs := Some (Dir (AList.update p (File d) es))\<rparr>"
  by (auto simp: writeFileSync_def split: option.splits entry.splits if_splits)

lemma read_after_write:
  "writeFileSync w p d = Inr w1 \<Longrightarrow>
   read_in_root w1 q = (if q = p then Inr d else read_in_root w q)"
  by (auto dest!: writeFileSync_svgs simp: read_in_root_def readFileSync_def update_conv')

lemma writeFileSync_console: "writeFileSync w p d = Inr w1 \<Longrightarrow> console w1 = console w"
  by (auto dest!: writeFileSync_svgs)

lemma read_console_log [simp]: "read_in_root (console_log w l) q = read_in_root w q"
  by (simp add: read_in_root_def console_log_def)

lemma png_attempt_read:
  "png_attempt sharp w svgPath pngPath = Inr w' \<Longrightarrow> q \<noteq> pngPath
   \<Longrightarrow> read_in_root w' q = read_in_root w q"
  by (auto simp: png_attempt_def read_after_write split: option.splits sum.splits)

lemma tryWritePng_read:
  "q \<noteq> pngPath \<Longrightarrow> read_in_root (tryWritePng sharp w svgPath pngPath) q = read_in_root w q"
  by (auto simp: tryWritePng_def png_attempt_read split: sum.splits)

lemma png_path_differs: "outputPath \<noteq> png_path outputPath"
  by code_simp

lemma main_success:
  assumes "main cmp num_str sharp w = (w', 0)"
  shows "\<exists>yc w1. layout cmp (svgs w) = Inr yc
     \<and> writeFileSync w outputPath (document num_str yc) = Inr w1
     \<and> w' = tryWritePng sharp (console_log w1 (Log (''Wrote '' @ outputPath))) outputPath
              (png_path outputPath)"
  using assms by (auto simp: main_def split: sum.splits)

text \<open>The cursor after the loop, in closed form.\<close>

lemma category_loop_cursor:
  "category_loop cmp listing cs y chunks = Inr (y', chunks')
   \<Longrightarrow> y' = y + sum_list (map (category_height cmp listing) cs)"
proof (induction cs arbitrary: y chunks)
  case Nil
  then show ?case by simp
next
  case (Cons c cs)
  from Cons.prems obtain dir where d: "map_of listing c = Some (Dir dir)"
    by (auto simp: readdirSync_def split: option.splits entry.splits)
  from Cons.prems d obtain blocks where
    "category_loop cmp listing cs
       (y + 22 + (row_count (length (member_files cmp dir)) * blockHeight + categoryGap))
       (chunks @ [TitleText padding y c] @ blocks) = Inr (y', chunks')"
    by (auto simp: readdirSync_def Let_def split: sum.splits)
  from Cons.IH [OF this] d show ?case
    by (simp add: category_height_def directory_of_def)
qed

lemma layout_cursor:
  "layout cmp (Some (Dir listing)) = Inr (y, chunks)
   \<Longrightarrow> y = padding + sum_list (map (category_height cmp listing) (categories listing))"
  by (simp add: layout_def readdirSync_def category_loop_cursor)

text \<open>
  C2: in every run that ends with exit code 0, the file written at \<^verbatim>\<open>outputPath\<close>
  starts with the tag \<^verbatim>\<open><svg xmlns=... width="W" height="H" viewBox="0 0 W H">\<close>, where
  \<open>W\<close> is written from \<open>2 * padding + cols * colWidth\<close> and \<open>H\<close> from the final
  cursor \<open>y\<close> plus \<open>padding\<close>: the attributes \<^verbatim>\<open>width\<close> and \<^verbatim>\<open>height\<close> carry
  the digits of the third and fourth number of \<^verbatim>\<open>viewBox\<close>.
\<close>

theorem document_size_matches_viewBox:
  assumes "main cmp num_str sharp w = (w', 0)"
  shows \<open>\<exists>y chunks body.
     layout cmp (svgs w) = Inr (y, chunks)
     \<and> read_in_root w' outputPath = Inr (
         ''<svg xmlns="http://www.w3.org/2000/svg" width="''
           @ show_nat (2 * padding + cols * colWidth)
           @ ''" height="'' @ show_nat (y + padding)
           @ ''" viewBox="0 0 '' @ show_nat (2 * padding + cols * colWidth)
           @ '' '' @ show_nat (y + padding) @ ''">''
           @ body)\<close>
proof -
  from main_success [OF assms] obtain yc w1 where
    l: "layout cmp (svgs w) = Inr yc" and
    wr: "writeFileSync w outputPath (document num_str yc) = Inr w1" and
    w': "w' = tryWritePng sharp (console_log w1 (Log (''Wrote '' @ outputPath))) outputPath
               (png_path outputPath)"
    by blast
  have "read_in_root w' outputPath = Inr (document num_str yc)"
    unfolding w' using read_after_write [OF wr, of outputPath]
    by (simp add: tryWritePng_read [OF png_path_differs])
  then show ?thesis
    using l by (cases yc) (simp add: document_def svg_header_def canvas_width_def mult.commute)
qed

lemma example_run_exit:
  "snd (main natural_compare (\<lambda>n. []) None \<lparr>svgs = Some (Dir [(''eyes'', Dir [])]), console = []\<rparr>) = 0"
  by code_simp

theorem document_size_matches_viewBox_witness:
  \<open>snd (main natural_compare (\<lambda>n. []) None
          \<lparr>svgs = Some (Dir [(''eyes'', Dir [])]), console = []\<rparr>) = 0
   \<and> (\<exists>y chunks body.
     layout natural_compare (Some (Dir [(''eyes'', Dir [])])) = Inr (y, chunks)
     \<and> read_in_root
          (fst (main natural_compare (\<lambda>n. []) None
                  \<lparr>svgs = Some (Dir [(''eyes'', Dir [])]), console = []\<rparr>)) outputPath
        = Inr (
         ''<svg xmlns="http://www.w3.org/2000/svg" width="''
           @ show_nat (2 * padding + cols * colWidth)
           @ ''" height="'' @ show_nat (y + padding)
           @ ''" viewBox="0 0 '' @ show_nat (2 * padding + cols * colWidth)
           @ '' '' @ show_nat (y + padding) @ ''">''
           @ body))\<close>
proof -
  have "main natural_compare (\<lambda>n. []) None \<lparr>svgs = Some (Dir [(''eyes'', Dir [])]), console = []\<rparr>
      = (fst (main natural_compare (\<lambda>n. []) None
                \<lparr>svgs = Some (Dir [(''eyes'', Dir [])]), console = []\<rparr>), 0)"
    using example_run_exit by (metis prod.collapse)
  from document_size_matches_viewBox [OF this] show ?thesis
    using example_run_exit by simp
qed

section \<open>The raster export\<close>

lemma png_attempt_absent: "png_attempt None w svgPath pngPath = Inl ImportFailed"
  by (simp add: png_attempt_def)

lemma png_attempt_throws:
  "read_in_root w svgPath = Inr svg \<Longrightarrow> convert svg = None
   \<Longrightarrow> png_attempt (Some convert) w svgPath pngPath = Inl ConversionFailed"
  by (simp add: png_attempt_def)

lemma exit_code_engine: "snd (main cmp num_str sharp w) = snd (main cmp num_str sharp' w)"
  by (simp add: main_def split: sum.splits)

text \<open>
  C7: when the layout and the writing of the SVG file have succeeded and the body of
  \<^verbatim>\<open>tryWritePng\<close> throws, for whatever reason, \<^verbatim>\<open>main\<close> still ends normally with
  exit code 0; the console has received the line \<^verbatim>\<open>Wrote ...\<close> and then one warning
  that names the PNG path; the directory is as the writing of the SVG file left it, and
  the SVG file holds the document.  The exit code is the one of a run with any other
  engine \<open>sharp'\<close>.
\<close>

theorem raster_failure_is_harmless:
  assumes lay: "layout cmp (svgs w) = Inr yc"
    and wr: "writeFileSync w outputPath (document num_str yc) = Inr w1"
    and fail: "png_attempt sharp (console_log w1 (Log (''Wrote '' @ outputPath))) outputPath
                 (png_path outputPath) = Inl e"
  shows "main cmp num_str sharp w
       = (w1\<lparr>console := console w @ [Log (''Wrote '' @ outputPath),
                                       Warn (skip_message (png_path outputPath))]\<rparr>, 0)
     \<and> skip_message (png_path outputPath)
         = ''Skipping PNG output for '' @ png_path outputPath
             @ ''. Install sharp to enable PNG export (pnpm add -D sharp).''
     \<and> read_in_root (fst (main cmp num_str sharp w)) outputPath = Inr (document num_str yc)
     \<and> svgs (fst (main cmp num_str sharp w)) = svgs w1
     \<and> snd (main cmp num_str sharp w) = snd (main cmp num_str sharp' w)"
proof -
  have m: "main cmp num_str sharp w
       = (w1\<lparr>console := console w @ [Log (''Wrote '' @ outputPath),
                                       Warn (skip_message (png_path outputPath))]\<rparr>, 0)"
    using lay wr fail writeFileSync_console [OF wr]
    by (simp add: main_def tryWritePng_def console_log_def)
  have r: "read_in_root w1 outputPath = Inr (document num_str yc)"
    using read_after_write [OF wr] by simp
  show ?thesis
    unfolding m using r exit_code_engine [of cmp num_str sharp w sharp']
    by (simp add: m read_in_root_def skip_message_def)
qed

lemma example_layout:
  "layout natural_compare (Some (Dir [(''eyes'', Dir [])])) = Inr (78, [TitleText 24 24 ''eyes''])"
  by code_simp

theorem raster_failure_is_harmless_witness:
  "layout natural_compare (Some (Dir [(''eyes'', Dir [])])) = Inr (78, [TitleText 24 24 ''eyes''])
   \<and> main natural_compare (\<lambda>n. []) None \<lparr>svgs = Some (Dir [(''eyes'', Dir [])]), console = []\<rparr>
       = (\<lparr>svgs = Some (Dir [(''eyes'', Dir []),
               (outputPath, File (document (\<lambda>n. []) (78, [TitleText 24 24 ''eyes''])))]),
            console = [Log (''Wrote '' @ outputPath), Warn (skip_message (png_path outputPath))]\<rparr>,
          0)"
proof -
  define w where "w = \<lparr>svgs = Some (Dir [(''eyes'', Dir [])]), console = []\<rparr>"
  define w1 where "w1 = \<lparr>svgs = Some (Dir [(''eyes'', Dir []),
      (outputPath, File (document (\<lambda>n. []) (78, [TitleText 24 24 ''eyes''])))]), console = []\<rparr>"
  have lay: "layout natural_compare (svgs w) = Inr (78, [TitleText 24 24 ''eyes''])"
    by (simp add: w_def example_layout)
  have wr: "writeFileSync w outputPath (document (\<lambda>n. []) (78, [TitleText 24 24 ''eyes''])) = Inr w1"
    by (simp add: w_def w1_def writeFileSync_def isDirectory_def outputPath_def)
  have fail: "png_attempt None (console_log w1 (Log (''Wrote '' @ outputPath))) outputPath
      (png_path outputPath) = Inl ImportFailed"
    by (rule png_attempt_absent)
  from raster_failure_is_harmless [OF lay wr fail] show ?thesis
    using example_layout by (simp add: w_def w1_def)
qed

section \<open>The scenario with two categories\<close>

lemma fragment_block_box:
  assumes "extractViewBox raw
      = \<lparr>minX = Some (Fin 0), minY = Some (Fin 0), width = Some (Fin w), height = Some (Fin h)\<rparr>"
    and "w \<noteq> 0" and "h \<noteq> 0"
  shows "fragment_block y idx file raw =
     FragmentBlock (padding + (idx mod cols) * colWidth) (y + (idx div cols) * blockHeight)
       (Fin (8 + (164 - w * min (164 / w) (208 / h)) / 2))
       (Fin (8 + (208 - h * min (164 / w) (208 / h)) / 2))
       (Fin (min (164 / w) (208 / h)))
       (sanitized_inner raw) (basename file ''.svg'')"
  using assms
  by (simp add: fragment_block_def Let_def fit_tx_def fit_ty_def fit_scale_def jsub_def
      innerW_def innerH_def thumbWidth_def thumbHeight_def to_number_def sanitized_inner_def)

lemma scenario_basenames:
  "basename ''left.svg'' ''.svg'' = ''left''"
  "basename ''right.svg'' ''.svg'' = ''right''"
  "basename ''smile.svg'' ''.svg'' = ''smile''"
  by (simp_all add: basename_def ends_with_def)

lemma scenario_categories:
  "categories [(''eyes'', Dir a), (''mouths'', Dir b)] = [''eyes'', ''mouths'']"
  "categories [(''mouths'', Dir b), (''eyes'', Dir a)] = [''eyes'', ''mouths'']"
proof -
  have s: "sort [''mouths'', ''eyes''] = [''eyes'', ''mouths'']"
    "sort [''eyes'', ''mouths''] = [''eyes'', ''mouths'']"
    by code_simp+
  show "categories [(''eyes'', Dir a), (''mouths'', Dir b)] = [''eyes'', ''mouths'']"
    "categories [(''mouths'', Dir b), (''eyes'', Dir a)] = [''eyes'', ''mouths'']"
    using s by (simp_all add: categories_def starts_with_def isDirectory_def del: sort_key_simps)
qed

lemma scenario_layout:
  fixes cmp :: "string \<Rightarrow> string \<Rightarrow> int"
  assumes r1: "extractViewBox r1 = \<lparr>minX = Some (Fin 0), minY = Some (Fin 0),
        width = Some (Fin 100), height = Some (Fin 100)\<rparr>"
    and r2: "extractViewBox r2 = \<lparr>minX = Some (Fin 0), minY = Some (Fin 0),
        width = Some (Fin 50), height = Some (Fin 200)\<rparr>"
    and r3: "extractViewBox r3 = \<lparr>minX = Some (Fin 0), minY = Some (Fin 0),
        width = Some (Fin 200), height = Some (Fin 50)\<rparr>"
    and cmp: "cmp ''left.svg'' ''right.svg'' \<le> 0" "0 < cmp ''right.svg'' ''left.svg''"
    and eyes: "eyes = [(''left.svg'', File r1), (''right.svg'', File r2)]
       \<or> eyes = [(''right.svg'', File r2), (''left.svg'', File r1)]"
    and listing: "listing = [(''eyes'', Dir eyes), (''mouths'', Dir [(''smile.svg'', File r3)])]
       \<or> listing = [(''mouths'', Dir [(''smile.svg'', File r3)]), (''eyes'', Dir eyes)]"
  shows "layout cmp (Some (Dir listing)) = Inr (672,
       [TitleText 24 24 ''eyes'',
        FragmentBlock 24 46 (Fin 8) (Fin 30) (Fin (41 / 25)) (sanitized_inner r1) ''left'',
        FragmentBlock 224 46 (Fin 64) (Fin 8) (Fin (26 / 25)) (sanitized_inner r2) ''right'',
        TitleText 24 348 ''mouths'',
        FragmentBlock 24 370 (Fin 8) (Fin (183 / 2)) (Fin (41 / 50)) (sanitized_inner r3) ''smile''])"
proof -
  have files_eyes: "member_files cmp eyes = [''left.svg'', ''right.svg'']"
    using eyes cmp by (auto simp: member_files_def sort_cmp_def ends_with_def)
  have files_mouths: "member_files cmp [(''smile.svg'', File r3)] = [''smile.svg'']"
    by (simp add: member_files_def sort_cmp_def ends_with_def)
  have b1: "fragment_block 46 0 ''left.svg'' r1
      = FragmentBlock 24 46 (Fin 8) (Fin 30) (Fin (41 / 25)) (sanitized_inner r1) ''left''"
    by (simp add: fragment_block_box [OF r1] scenario_basenames padding_def cols_def
        colWidth_def blockHeight_def)
  have b2: "fragment_block 46 1 ''right.svg'' r2
      = FragmentBlock 224 46 (Fin 64) (Fin 8) (Fin (26 / 25)) (sanitized_inner r2) ''right''"
    by (simp add: fragment_block_box [OF r2] scenario_basenames padding_def cols_def
        colWidth_def blockHeight_def)
  have b3: "fragment_block 370 0 ''smile.svg'' r3
      = FragmentBlock 24 370 (Fin 8) (Fin (183 / 2)) (Fin (41 / 50)) (sanitized_inner r3) ''smile''"
    by (simp add: fragment_block_box [OF r3] scenario_basenames padding_def cols_def
        colWidth_def blockHeight_def)
  have fe: "fragments eyes 46 0 [''left.svg'', ''right.svg'']
      = Inr [fragment_block 46 0 ''left.svg'' r1, fragment_block 46 1 ''right.svg'' r2]"
    using eyes by (auto simp: readFileSync_def)
  have fm: "fragments [(''smile.svg'', File r3)] 370 0 [''smile.svg'']
      = Inr [fragment_block 370 0 ''smile.svg'' r3]"
    by (simp add: readFileSync_def)
  have loop: "category_loop cmp listing [''eyes'', ''mouths''] 24 [] = Inr (672,
     [TitleText 24 24 ''eyes'', fragment_block 46 0 ''left.svg'' r1,
      fragment_block 46 1 ''right.svg'' r2,
      TitleText 24 348 ''mouths'', fragment_block 370 0 ''smile.svg'' r3])"
    using listing
    by (auto simp: readdirSync_def files_eyes files_mouths fe fm row_count_def cols_def
        blockHeight_def thumbHeight_def labelHeight_def categoryGap_def padding_def
        simp del: fragments.simps)
  have "categories listing = [''eyes'', ''mouths'']"
    using listing scenario_categories by auto
  then have "layout cmp (Some (Dir listing))
      = category_loop cmp listing [''eyes'', ''mouths''] 24 []"
    by (simp add: layout_def readdirSync_def padding_def del: category_loop.simps)
  then show ?thesis
    unfolding loop b1 b2 b3 .
qed

lemma scenario_files:
  \<open>extractViewBox ''<svg viewBox="0 0 100 100"><rect/></svg>''
     = \<lparr>minX = Some (Fin 0), minY = Some (Fin 0), width = Some (Fin 100), height = Some (Fin 100)\<rparr>\<close>
  \<open>extractViewBox ''<svg viewBox="0 0 50 200"><circle/></svg>''
     = \<lparr>minX = Some (Fin 0), minY = Some (Fin 0), width = Some (Fin 50), height = Some (Fin 200)\<rparr>\<close>
  \<open>extractViewBox ''<svg viewBox="0 0 200 50"><path/></svg>''
     = \<lparr>minX = Some (Fin 0), minY = Some (Fin 0), width = Some (Fin 200), height = Some (Fin 50)\<rparr>\<close>
  \<open>sanitized_inner ''<svg viewBox="0 0 100 100"><rect/></svg>'' = ''<rect/>''\<close>
  \<open>sanitized_inner ''<svg viewBox="0 0 50 200"><circle/></svg>'' = ''<circle/>''\<close>
  \<open>sanitized_inner ''<svg viewBox="0 0 200 50"><path/></svg>'' = ''<path/>''\<close>
  by code_simp+

lemma scenario_compare:
  "natural_compare ''left.svg'' ''right.svg'' \<le> 0"
  "0 < natural_compare ''right.svg'' ''left.svg''"
  by code_simp+

lemma scenario_numbers:
  "show_nat 1048 = ''1048''" "show_nat 696 = ''696''" "show_nat 24 = ''24''"
  "show_nat 46 = ''46''" "show_nat 224 = ''224''" "show_nat 348 = ''348''"
  "show_nat 370 = ''370''" "show_nat 180 = ''180''" "show_nat 240 = ''240''"
  "show_nat 90 = ''90''" "show_nat 234 = ''234''"
  by code_simp+

text \<open>
  C8: the directory holds the categories \<^verbatim>\<open>eyes\<close> (with \<^verbatim>\<open>left.svg\<close>, view box
  \<^verbatim>\<open>0 0 100 100\<close>, and \<^verbatim>\<open>right.svg\<close>, view box \<^verbatim>\<open>0 0 50 200\<close>) and \<^verbatim>\<open>mouths\<close>
  (with \<^verbatim>\<open>smile.svg\<close>, view box \<^verbatim>\<open>0 0 200 50\<close>), listed in either order, and the
  comparison function puts \<^verbatim>\<open>left.svg\<close> before \<^verbatim>\<open>right.svg\<close>.  Then the run ends
  with exit code 0 and the file at \<^verbatim>\<open>outputPath\<close> is the document spelled out below:
  the root tag with width 1048, which is \<open>2 * padding + cols * colWidth\<close> and holds
  no number of fragments, then exactly five lines, in this order: the title of
  \<^verbatim>\<open>eyes\<close>, the block of \<^verbatim>\<open>left\<close>, the block of \<^verbatim>\<open>right\<close>, the title of
  \<^verbatim>\<open>mouths\<close> and the block of \<^verbatim>\<open>smile\<close>, each block with its background
  rectangle, its fit transform, the sanitised inner markup and its label.
\<close>

theorem scenario_eyes_mouths:
  fixes cmp :: "string \<Rightarrow> string \<Rightarrow> int"
  assumes r1: "extractViewBox r1 = \<lparr>minX = Some (Fin 0), minY = Some (Fin 0),
        width = Some (Fin 100), height = Some (Fin 100)\<rparr>"
    and r2: "extractViewBox r2 = \<lparr>minX = Some (Fin 0), minY = Some (Fin 0),
        width = Some (Fin 50), height = Some (Fin 200)\<rparr>"
    and r3: "extractViewBox r3 = \<lparr>minX = Some (Fin 0), minY = Some (Fin 0),
        width = Some (Fin 200), height = Some (Fin 50)\<rparr>"
    and cmp: "cmp ''left.svg'' ''right.svg'' \<le> 0" "0 < cmp ''right.svg'' ''left.svg''"
    and eyes: "eyes = [(''left.svg'', File r1), (''right.svg'', File r2)]
       \<or> eyes = [(''right.svg'', File r2), (''left.svg'', File r1)]"
    and listing: "listing = [(''eyes'', Dir eyes), (''mouths'', Dir [(''smile.svg'', File r3)])]
       \<or> listing = [(''mouths'', Dir [(''smile.svg'', File r3)]), (''eyes'', Dir eyes)]"
    and w: "svgs w = Some (Dir listing)"
  shows \<open>\<exists>chunks.
     layout cmp (svgs w) = Inr (672, chunks)
     \<and> chunks =
       [TitleText 24 24 ''eyes'',
        FragmentBlock 24 46 (Fin 8) (Fin 30) (Fin (41 / 25)) (sanitized_inner r1) ''left'',
        FragmentBlock 224 46 (Fin 64) (Fin 8) (Fin (26 / 25)) (sanitized_inner r2) ''right'',
        TitleText 24 348 ''mouths'',
        FragmentBlock 24 370 (Fin 8) (Fin (183 / 2)) (Fin (41 / 50)) (sanitized_inner r3) ''smile'']
     \<and> length (filter is_block chunks) = 3
     \<and> length (filter is_title chunks) = 2
     \<and> 2 * padding + cols * colWidth = 1048
     \<and> snd (main cmp num_str sharp w) = 0
     \<and> read_in_root (fst (main cmp num_str sharp w)) outputPath = Inr (
         ''<svg xmlns="http://www.w3.org/2000/svg" width="1048" height="696" viewBox="0 0 1048 696">''
         @ [CHR 0x0A]
         @ ''<text x="24" y="24" font-family="Arial, sans-serif" font-size="18" font-weight="bold">eyes</text>''
         @ [CHR 0x0A]
         @ ''<g transform="translate(24 46)">''
         @ ''<rect width="180" height="240" rx="8" ry="8" fill="#f7f7f7" stroke="#ddd"/>''
         @ ''<g transform="translate('' @ num_str (Fin 8) @ '' '' @ num_str (Fin 30)
         @ '') scale('' @ num_str (Fin (41 / 25)) @ '')">''
         @ sanitized_inner r1
         @ ''</g>''
         @ ''<text x="90" y="234" font-family="Arial, sans-serif" font-size="14" text-anchor="middle" fill="#333">left</text>''
         @ ''</g>''
         @ [CHR 0x0A]
         @ ''<g transform="translate(224 46)">''
         @ ''<rect width="180" height="240" rx="8" ry="8" fill="#f7f7f7" stroke="#ddd"/>''
         @ ''<g transform="translate('' @ num_str (Fin 64) @ '' '' @ num_str (Fin 8)
         @ '') scale('' @ num_str (Fin (26 / 25)) @ '')">''
         @ sanitized_inner r2
         @ ''</g>''
         @ ''<text x="90" y="234" font-family="Arial, sans-serif" font-size="14" text-anchor="middle" fill="#333">right</text>''
         @ ''</g>''
         @ [CHR 0x0A]
         @ ''<text x="24" y="348" font-family="Arial, sans-serif" font-size="18" font-weight="bold">mouths</text>''
         @ [CHR 0x0A]
         @ ''<g transform="translate(24 370)">''
         @ ''<rect width="180" height="240" rx="8" ry="8" fill="#f7f7f7" stroke="#ddd"/>''
         @ ''<g transform="translate('' @ num_str (Fin 8) @ '' '' @ num_str (Fin (183 / 2))
         @ '') scale('' @ num_str (Fin (41 / 50)) @ '')">''
         @ sanitized_inner r3
         @ ''</g>''
         @ ''<text x="90" y="234" font-family="Arial, sans-serif" font-size="14" text-anchor="middle" fill="#333">smile</text>''
         @ ''</g>''
         @ [CHR 0x0A] @ ''</svg>'' @ [CHR 0x0A])\<close>
proof -
  let ?chunks = "[TitleText 24 24 ''eyes'',
        FragmentBlock 24 46 (Fin 8) (Fin 30) (Fin (41 / 25)) (sanitized_inner r1) ''left'',
        FragmentBlock 224 46 (Fin 64) (Fin 8) (Fin (26 / 25)) (sanitized_inner r2) ''right'',
        TitleText 24 348 ''mouths'',
        FragmentBlock 24 370 (Fin 8) (Fin (183 / 2)) (Fin (41 / 50)) (sanitized_inner r3) ''smile'']"
  have lay: "layout cmp (svgs w) = Inr (672, ?chunks)"
    unfolding w by (rule scenario_layout [OF r1 r2 r3 cmp eyes listing])
  have nodir: "\<not> isDirectory (map_of listing outputPath)"
    using listing by (auto simp: isDirectory_def outputPath_def)
  define w1 where "w1 = w\<lparr>svgs := Some (Dir (AList.update outputPath
      (File (document num_str (672, ?chunks))) listing))\<rparr>"
  have wr: "writeFileSync w outputPath (document num_str (672, ?chunks)) = Inr w1"
    using nodir by (simp add: writeFileSync_def w w1_def)
  have m: "main cmp num_str sharp w
      = (tryWritePng sharp (console_log w1 (Log (''Wrote '' @ outputPath))) outputPath
           (png_path outputPath), 0)"
    by (simp add: main_def lay wr)
  have rd: "read_in_root (fst (main cmp num_str sharp w)) outputPath
      = Inr (document num_str (672, ?chunks))"
    unfolding m using read_after_write [OF wr, of outputPath]
    by (simp add: tryWritePng_read [OF png_path_differs])
  have doc: \<open>document num_str (672, ?chunks) =
         ''<svg xmlns="http://www.w3.org/2000/svg" width="1048" height="696" viewBox="0 0 1048 696">''
         @ [CHR 0x0A]
         @ ''<text x="24" y="24" font-family="Arial, sans-serif" font-size="18" font-weight="bold">eyes</text>''
         @ [CHR 0x0A]
         @ ''<g transform="translate(24 46)">''
         @ ''<rect width="180" height="240" rx="8" ry="8" fill="#f7f7f7" stroke="#ddd"/>''
         @ ''<g transform="translate('' @ num_str (Fin 8) @ '' '' @ num_str (Fin 30)
         @ '') scale('' @ num_str (Fin (41 / 25)) @ '')">''
         @ sanitized_inner r1
         @ ''</g>''
         @ ''<text x="90" y="234" font-family="Arial, sans-serif" font-size="14" text-anchor="middle" fill="#333">left</text>''
         @ ''</g>''
         @ [CHR 0x0A]
         @ ''<g transform="translate(224 46)">''
         @ ''<rect width="180" height="240" rx="8" ry="8" fill="#f7f7f7" stroke="#ddd"/>''
         @ ''<g transform="translate('' @ num_str (Fin 64) @ '' '' @ num_str (Fin 8)
         @ '') scale('' @ num_str (Fin (26 / 25)) @ '')">''
         @ sanitized_inner r2
         @ ''</g>''
         @ ''<text x="90" y="234" font-family="Arial, sans-serif" font-size="14" text-anchor="middle" fill="#333">right</text>''
         @ ''</g>''
         @ [CHR 0x0A]
         @ ''<text x="24" y="348" font-family="Arial, sans-serif" font-size="18" font-weight="bold">mouths</text>''
         @ [CHR 0x0A]
         @ ''<g transform="translate(24 370)">''
         @ ''<rect width="180" height="240" rx="8" ry="8" fill="#f7f7f7" stroke="#ddd"/>''
         @ ''<g transform="translate('' @ num_str (Fin 8) @ '' '' @ num_str (Fin (183 / 2))
         @ '') scale('' @ num_str (Fin (41 / 50)) @ '')">''
         @ sanitized_inner r3
         @ ''</g>''
         @ ''<text x="90" y="234" font-family="Arial, sans-serif" font-size="14" text-anchor="middle" fill="#333">smile</text>''
         @ ''</g>''
         @ [CHR 0x0A] @ ''</svg>'' @ [CHR 0x0A]\<close>
    by (simp add: document_def svg_header_def canvas_width_def padding_def cols_def colWidth_def
        titleFont_def thumbWidth_def thumbHeight_def scenario_numbers)
  have width: "2 * padding + cols * colWidth = 1048"
    by (simp add: padding_def cols_def colWidth_def)
  have ex: "snd (main cmp num_str sharp w) = 0"
    by (simp add: m)
  show ?thesis
    using lay width ex rd unfolding doc by simp
qed

lemma scenario_strings:
  "scenario_num_str (Fin 8) = ''8''" "scenario_num_str (Fin 30) = ''30''"
  "scenario_num_str (Fin 64) = ''64''" "scenario_num_str (Fin (41 / 25)) = ''1.64''"
  "scenario_num_str (Fin (26 / 25)) = ''1.04''" "scenario_num_str (Fin (183 / 2)) = ''91.5''"
  "scenario_num_str (Fin (41 / 50)) = ''0.82''"
  by (simp_all add: scenario_num_str_def)

lemma scenario_counts:
  \<open>count_sub ''<rect width="180" height="240" rx="8" ry="8" fill="#f7f7f7" stroke="#ddd"/>''
     scenario_document = 3\<close>
  \<open>count_sub ''<text x="24"'' scenario_document = 2\<close>
  by code_simp+

theorem scenario_eyes_mouths_witness:
  \<open>natural_compare ''left.svg'' ''right.svg'' \<le> 0
   \<and> 0 < natural_compare ''right.svg'' ''left.svg''
   \<and> snd (main natural_compare scenario_num_str None scenario_world) = 0
   \<and> read_in_root (fst (main natural_compare scenario_num_str None scenario_world)) outputPath
       = Inr scenario_document
   \<and> count_sub ''<rect width="180" height="240" rx="8" ry="8" fill="#f7f7f7" stroke="#ddd"/>''
       scenario_document = 3
   \<and> count_sub ''<text x="24"'' scenario_document = 2\<close>
proof -
  have w: \<open>svgs scenario_world = Some (Dir
        [(''mouths'', Dir [(''smile.svg'', File ''<svg viewBox="0 0 200 50"><path/></svg>'')]),
         (''eyes'', Dir [(''right.svg'', File ''<svg viewBox="0 0 50 200"><circle/></svg>''),
                        (''left.svg'', File ''<svg viewBox="0 0 100 100"><rect/></svg>'')])])\<close>
    by (simp add: scenario_world_def)
  have e: \<open>[(''right.svg'', File ''<svg viewBox="0 0 50 200"><circle/></svg>''),
            (''left.svg'', File ''<svg viewBox="0 0 100 100"><rect/></svg>'')]
      = [(''left.svg'', File ''<svg viewBox="0 0 100 100"><rect/></svg>''),
         (''right.svg'', File ''<svg viewBox="0 0 50 200"><circle/></svg>'')]
      \<or> [(''right.svg'', File ''<svg viewBox="0 0 50 200"><circle/></svg>''),
            (''left.svg'', File ''<svg viewBox="0 0 100 100"><rect/></svg>'')]
      = [(''right.svg'', File ''<svg viewBox="0 0 50 200"><circle/></svg>''),
         (''left.svg'', File ''<svg viewBox="0 0 100 100"><rect/></svg>'')]\<close>
    by simp
  from scenario_eyes_mouths [OF scenario_files(1,2,3) scenario_compare e _ w,
      of scenario_num_str None]
  have \<open>snd (main natural_compare scenario_num_str None scenario_world) = 0
     \<and> read_in_root (fst (main natural_compare scenario_num_str None scenario_world)) outputPath
       = Inr scenario_document\<close>
    by (simp add: scenario_files(4,5,6) scenario_strings scenario_document_def)
  then show ?thesis
    using scenario_compare scenario_counts by simp
qed

section \<open>The order of categories and member files\<close>

lemma mset_insort_cmp: "mset (insort_cmp cmp x xs) = add_mset x (mset xs)"
  by (induction xs) auto

lemma mset_sort_cmp: "mset (sort_cmp cmp xs) = mset xs"
  by (induction xs) (auto simp: sort_cmp_def mset_insort_cmp)

lemma set_insort_cmp: "set (insort_cmp cmp x xs) = insert x (set xs)"
  by (induction xs) auto

lemma set_sort_cmp: "set (sort_cmp cmp xs) = set xs"
  using mset_sort_cmp [of cmp xs] by (metis set_mset_mset)

lemma sorted_insort_cmp:
  assumes total: "\<forall>a\<in>A. \<forall>b\<in>A. cmp a b \<le> 0 \<or> cmp b a \<le> 0"
    and trans: "\<forall>a\<in>A. \<forall>b\<in>A. \<forall>c\<in>A. cmp a b \<le> 0 \<longrightarrow> cmp b c \<le> 0 \<longrightarrow> cmp a c \<le> 0"
    and "x \<in> A" and "set xs \<subseteq> A"
    and "sorted_wrt (\<lambda>a b. cmp a b \<le> (0::int)) xs"
  shows "sorted_wrt (\<lambda>a b. cmp a b \<le> 0) (insort_cmp cmp x xs)"
  using assms(3-)
proof (induction xs)
  case Nil
  then show ?case by simp
next
  case (Cons y ys)
  show ?case
  proof (cases "cmp x y \<le> 0")
    case True
    have "cmp x z \<le> 0" if "z \<in> set ys" for z
    proof -
      have "cmp y z \<le> 0" using Cons.prems(3) that by simp
      then show ?thesis using trans True Cons.prems(1,2) that by (meson list.set_intros subsetD)
    qed
    then show ?thesis using True Cons.prems(3) by simp
  next
    case False
    then have yx: "cmp y x \<le> 0"
      using total Cons.prems(1,2) by (meson list.set_intros(1) subsetD)
    have "sorted_wrt (\<lambda>a b. cmp a b \<le> 0) (insort_cmp cmp x ys)"
      using Cons by simp
    then show ?thesis
      using False yx Cons.prems(3) by (simp add: set_insort_cmp)
  qed
qed

lemma sorted_sort_cmp:
  assumes total: "\<forall>a\<in>A. \<forall>b\<in>A. cmp a b \<le> 0 \<or> cmp b a \<le> 0"
    and trans: "\<forall>a\<in>A. \<forall>b\<in>A. \<forall>c\<in>A. cmp a b \<le> 0 \<longrightarrow> cmp b c \<le> 0 \<longrightarrow> cmp a c \<le> 0"
    and "set xs \<subseteq> A"
  shows "sorted_wrt (\<lambda>a b. cmp a b \<le> (0::int)) (sort_cmp cmp xs)"
  using assms(3)
proof (induction xs)
  case Nil
  then show ?case by (simp add: sort_cmp_def)
next
  case (Cons x xs)
  have "sorted_wrt (\<lambda>a b. cmp a b \<le> 0) (insort_cmp cmp x (sort_cmp cmp xs))"
    using Cons by (intro sorted_insort_cmp [OF total trans]) (simp_all add: set_sort_cmp)
  then show ?case by (simp add: sort_cmp_def)
qed

lemma sorted_wrt_before:
  "sorted_wrt R xs \<Longrightarrow> a \<in> set xs \<Longrightarrow> b \<in> set xs \<Longrightarrow> \<not> R b a \<Longrightarrow> a \<noteq> b
   \<Longrightarrow> \<exists>us vs ws. xs = us @ a # vs @ b # ws"
proof (induction xs)
  case Nil
  then show ?case by simp
next
  case (Cons x xs)
  show ?case
  proof (cases "x = a")
    case True
    then have "b \<in> set xs" using Cons.prems(3,5) by auto
    then obtain vs ws where "xs = vs @ b # ws" by (meson split_list)
    then have "x # xs = [] @ a # vs @ b # ws" using True by simp
    then show ?thesis by blast
  next
    case False
    then have a: "a \<in> set xs" using Cons.prems(2) by auto
    have "x \<noteq> b"
    proof
      assume "x = b"
      then have "R b a" using Cons.prems(1) a by simp
      then show False using Cons.prems(4) by simp
    qed
    then have "b \<in> set xs" using Cons.prems(3) by auto
    with Cons.IH a Cons.prems(1,4,5) obtain us vs ws where "xs = us @ a # vs @ b # ws"
      by auto
    then have "x # xs = (x # us) @ a # vs @ b # ws" by simp
    then show ?thesis by blast
  qed
qed

text \<open>
  C3: the member files of a category are the entries whose name ends in \<^verbatim>\<open>.svg\<close>,
  sorted by \<^verbatim>\<open>localeCompare\<close> with \<^verbatim>\<open>{ numeric: true }\<close>: no file is followed by one
  that the comparison puts before it, and of two files that differ in the value of a
  run of digits (\<open>numeric_less\<close>, as \<^verbatim>\<open>part2.svg\<close> and \<^verbatim>\<open>part10.svg\<close>) the one
  with the smaller value comes first, which a sort by code units does not give.  The
  categories are the visible directories, in ascending lexicographic order of their
  names.
\<close>

theorem scan_order:
  fixes localeCompare :: "string \<Rightarrow> string \<Rightarrow> int"
  assumes "numeric_collation localeCompare (set (map fst dir))"
  shows "sorted_wrt (\<lambda>a b. localeCompare a b \<le> 0) (member_files localeCompare dir)
     \<and> mset (member_files localeCompare dir) = mset (filter (ends_with ''.svg'') (map fst dir))
     \<and> (\<forall>a b. a \<in> set (member_files localeCompare dir)
           \<and> b \<in> set (member_files localeCompare dir) \<and> numeric_less a b
           \<longrightarrow> (\<exists>us vs ws. member_files localeCompare dir = us @ a # vs @ b # ws))
     \<and> sorted (categories listing)
     \<and> mset (categories listing)
         = mset (filter (\<lambda>name. \<not> starts_with ''.'' name \<and> isDirectory (map_of listing name))
             (map fst listing))"
proof -
  let ?N = "set (map fst dir)"
  let ?files = "member_files localeCompare dir"
  from assms have total: "\<forall>a\<in>?N. \<forall>b\<in>?N. localeCompare a b \<le> 0 \<or> localeCompare b a \<le> 0"
    and trans: "\<forall>a\<in>?N. \<forall>b\<in>?N. \<forall>c\<in>?N.
           localeCompare a b \<le> 0 \<longrightarrow> localeCompare b c \<le> 0 \<longrightarrow> localeCompare a c \<le> 0"
    and sign: "\<forall>a\<in>?N. \<forall>b\<in>?N. localeCompare a b < 0 \<longrightarrow> 0 < localeCompare b a"
    and numeric: "\<forall>a\<in>?N. \<forall>b\<in>?N. numeric_less a b \<longrightarrow> localeCompare a b < 0"
    unfolding numeric_collation_def by blast+
  have srt: "sorted_wrt (\<lambda>a b. localeCompare a b \<le> 0) ?files"
    unfolding member_files_def
    by (rule sorted_sort_cmp [OF total trans]) auto
  have sub: "set ?files \<subseteq> ?N"
    by (auto simp: member_files_def set_sort_cmp)
  have before: "\<exists>us vs ws. ?files = us @ a # vs @ b # ws"
    if a: "a \<in> set ?files" and b: "b \<in> set ?files" and n: "numeric_less a b" for a b
  proof -
    have lt: "localeCompare a b < 0" using numeric a b n sub by blast
    then have gt: "0 < localeCompare b a" using sign a b sub by blast
    then have "\<not> localeCompare b a \<le> 0" by simp
    moreover have "a \<noteq> b" using lt gt by auto
    ultimately show ?thesis
      using sorted_wrt_before [OF srt a b] by blast
  qed
  show ?thesis
    using srt before by (simp add: member_files_def mset_sort_cmp categories_def)
qed

lemma natural_compare_le: "natural_compare a b \<le> 0 \<longleftrightarrow> natural_key a \<le> natural_key b"
  by (auto simp: natural_compare_def)

lemma example_parts:
  "member_files natural_compare [(''part10.svg'', File r), (''part2.svg'', File r'), (''notes.txt'', File r'')]
     = [''part2.svg'', ''part10.svg'']"
  "sort [''part10.svg'', ''part2.svg''] = [''part10.svg'', ''part2.svg'']"
  "categories [(''mouths'', Dir []), (''.git'', Dir []), (''catalog.svg'', File r), (''eyes'', Dir [])]
     = [''eyes'', ''mouths'']"
  by code_simp+

lemma natural_compare_less: "natural_compare a b < 0 \<longleftrightarrow> natural_key a < natural_key b"
  by (auto simp: natural_compare_def)

lemma natural_compare_greater: "0 < natural_compare a b \<longleftrightarrow> natural_key b < natural_key a"
  by (auto simp: natural_compare_def)

lemma example_numeric:
  "\<forall>a\<in>set (map fst [(''part10.svg'', File []), (''part2.svg'', File []), (''notes.txt'', File [])]).
   \<forall>b\<in>set (map fst [(''part10.svg'', File []), (''part2.svg'', File []), (''notes.txt'', File [])]).
     numeric_less a b \<longrightarrow> natural_compare a b < 0"
  "numeric_less ''part2.svg'' ''part10.svg''"
  by code_simp+

theorem scan_order_witness:
  "numeric_less ''part2.svg'' ''part10.svg''
   \<and> member_files natural_compare
       [(''part10.svg'', File []), (''part2.svg'', File []), (''notes.txt'', File [])]
     = [''part2.svg'', ''part10.svg'']
   \<and> sort [''part10.svg'', ''part2.svg''] = [''part10.svg'', ''part2.svg'']
   \<and> sorted_wrt (\<lambda>a b. natural_compare a b \<le> 0) [''part2.svg'', ''part10.svg'']
   \<and> categories [(''mouths'', Dir []), (''.git'', Dir []), (''catalog.svg'', File []), (''eyes'', Dir [])]
     = [''eyes'', ''mouths'']
   \<and> sorted [''eyes'', ''mouths'']"
proof -
  let ?N = "set (map fst [(''part10.svg'', File []), (''part2.svg'', File []), (''notes.txt'', File [])])"
  have total: "\<forall>a\<in>?N. \<forall>b\<in>?N. natural_compare a b \<le> 0 \<or> natural_compare b a \<le> 0"
    unfolding natural_compare_le by (intro ballI) (rule linear)
  have trans: "\<forall>a\<in>?N. \<forall>b\<in>?N. \<forall>c\<in>?N. natural_compare a b \<le> 0 \<longrightarrow> natural_compare b c \<le> 0
      \<longrightarrow> natural_compare a c \<le> 0"
    unfolding natural_compare_le by (intro ballI impI) (rule order_trans)
  have sign: "\<forall>a\<in>?N. \<forall>b\<in>?N. natural_compare a b < 0 \<longrightarrow> 0 < natural_compare b a"
    unfolding natural_compare_less natural_compare_greater by (intro ballI impI)
  have c: "numeric_collation natural_compare ?N"
    unfolding numeric_collation_def
    using total trans sign example_numeric(1) by (intro conjI)
  note t = scan_order [OF c,
      of "[(''mouths'', Dir []), (''.git'', Dir []), (''catalog.svg'', File []), (''eyes'', Dir [])]"]
  from t have a: "sorted_wrt (\<lambda>a b. natural_compare a b \<le> 0)
      (member_files natural_compare
        [(''part10.svg'', File []), (''part2.svg'', File []), (''notes.txt'', File [])])"
    by (rule conjunct1)
  from t have b: "sorted (categories
      [(''mouths'', Dir []), (''.git'', Dir []), (''catalog.svg'', File []), (''eyes'', Dir [])])"
    by (elim conjE)
  show ?thesis
    using a b example_numeric(2) by (simp only: example_parts simp_thms)
qed

section \<open>Sanitising twice\<close>

lemma replace_all_no_match: "first_match m s = None \<Longrightarrow> replace_all m s = s"
  by (induction s) (auto split: option.splits)

lemma replace_first_no_match: "first_match m s = None \<Longrightarrow> replace_first m s = s"
  by (induction s) (auto split: option.splits)

lemma match_lit_length: "match_lit ci p s = Some r \<Longrightarrow> length r + length p = length s"
  by (induction ci p s arbitrary: r rule: match_lit.induct) (auto split: if_splits)

lemma upto_gt_length: "upto_gt s = Some r \<Longrightarrow> length r < length s"
  by (induction s arbitrary: r) (auto split: if_splits simp: less_Suc_eq)

lemma first_match_length:
  assumes "first_match m s = Some r" and le: "\<And>t u. m t = Some u \<Longrightarrow> length u \<le> length t"
  shows "length r \<le> length s"
  using assms(1)
proof (induction s)
  case Nil
  then show ?case using le [of "[]" r] by simp
next
  case (Cons c cs)
  show ?case
  proof (cases "m (c # cs)")
    case None
    then show ?thesis using Cons by (simp add: le_Suc_eq)
  next
    case (Some u)
    then show ?thesis using Cons.prems le [of "c # cs" u] by simp
  qed
qed

lemma consumes_xml_decl: "consumes xml_decl"
  by (auto simp: consumes_def xml_decl_def Option.bind_eq_Some_conv
      dest!: match_lit_length upto_gt_length)

lemma consumes_doctype: "consumes doctype"
  by (auto simp: consumes_def doctype_def Option.bind_eq_Some_conv
      dest!: match_lit_length upto_gt_length)

lemma consumes_svg_open: "consumes svg_open"
  by (auto simp: consumes_def svg_open_def Option.bind_eq_Some_conv
      dest!: match_lit_length upto_gt_length)

lemma consumes_svg_close: "consumes svg_close"
  by (auto simp: consumes_def svg_close_def dest!: match_lit_length)

lemma first_match_lit_length: "first_match (match_lit ci p) s = Some r \<Longrightarrow> length r \<le> length s"
  by (erule first_match_length) (auto dest!: match_lit_length)

lemma consumes_comment: "consumes comment"
  by (auto simp: consumes_def comment_def Option.bind_eq_Some_conv
      dest!: match_lit_length first_match_lit_length)

lemma consumes_metadata: "consumes metadata"
  by (auto simp: consumes_def metadata_def Option.bind_eq_Some_conv
      dest!: match_lit_length first_match_lit_length)

lemma ns_prefix_length: "ns_prefix a b s = Some r \<Longrightarrow> length r < length s"
  by (auto simp: ns_prefix_def Option.bind_eq_Some_conv split: option.splits
      dest!: match_lit_length)

lemma skip_ws_length: "length (skip_ws s) \<le> length s"
  by (simp add: skip_ws_def length_dropWhile_le)

lemma ns_open_length: "ns_open s = Some r \<Longrightarrow> length r < length s"
proof -
  assume "ns_open s = Some r"
  then obtain r1 r2 where a: "match_lit False ''<'' s = Some r1"
    and b: "ns_prefix ''sodipodi'' ''inkscape'' (skip_ws r1) = Some r2"
    and c: "upto_gt r2 = Some r"
    by (auto simp: ns_open_def Option.bind_eq_Some_conv)
  show ?thesis
    using match_lit_length [OF a] ns_prefix_length [OF b] upto_gt_length [OF c]
      skip_ws_length [of r1] by simp
qed

lemma ns_close_length: "ns_close s = Some r \<Longrightarrow> length r < length s"
proof -
  assume "ns_close s = Some r"
  then obtain r1 r2 where a: "match_lit False ''</'' s = Some r1"
    and b: "ns_prefix ''sodipodi'' ''inkscape'' (skip_ws r1) = Some r2"
    and c: "upto_gt r2 = Some r"
    by (auto simp: ns_close_def Option.bind_eq_Some_conv)
  show ?thesis
    using match_lit_length [OF a] ns_prefix_length [OF b] upto_gt_length [OF c]
      skip_ws_length [of r1] by simp
qed

lemma consumes_ns_open: "consumes ns_open"
  by (auto simp: consumes_def dest: ns_open_length)

lemma consumes_ns_pair: "consumes ns_pair"
proof -
  have "length r < length s" if "ns_pair s = Some r" for s r
  proof -
    from that obtain r1 where a: "ns_open s = Some r1" and b: "first_match ns_close r1 = Some r"
      by (auto simp: ns_pair_def Option.bind_eq_Some_conv)
    have "length r \<le> length r1"
      using b by (rule first_match_length) (auto dest: ns_close_length less_imp_le)
    then show ?thesis using ns_open_length [OF a] by simp
  qed
  then show ?thesis by (simp add: consumes_def)
qed

lemma consumes_ns_attr: "consumes ns_attr"
proof -
  have "length r < length s" if "ns_attr s = Some r" for s r
  proof (cases s)
    case Nil
    then show ?thesis using that by (simp add: ns_attr_def)
  next
    case (Cons c cs)
    let ?P = "\<lambda>c. c \<noteq> CHR ''='' \<and> \<not> is_space c"
    from that Cons obtain r1 r2 where
      a: "ns_prefix ''inkscape'' ''sodipodi'' (skip_ws cs) = Some r1"
      and b: "match_lit False (''='' @ [CHR 0x22]) (dropWhile ?P r1) = Some r2"
      and c: "match_lit False [CHR 0x22] (dropWhile (\<lambda>c. c \<noteq> CHR 0x22) r2) = Some r"
      by (auto simp: ns_attr_def Option.bind_eq_Some_conv split: if_splits)
    have "length r \<le> length r2"
      using match_lit_length [OF c] length_dropWhile_le [of "\<lambda>c. c \<noteq> CHR 0x22" r2] by simp
    moreover have "length r2 \<le> length r1"
      using match_lit_length [OF b] length_dropWhile_le [of ?P r1] by simp
    moreover have "length r1 < length cs"
      using ns_prefix_length [OF a] skip_ws_length [of cs] by simp
    ultimately show ?thesis using Cons by simp
  qed
  then show ?thesis by (simp add: consumes_def)
qed

lemma replace_all_length: "length (replace_all m s) \<le> length s"
  by (induction m s rule: replace_all.induct) (auto split: option.splits simp: le_Suc_eq)

lemma consumesD: "consumes m \<Longrightarrow> m s = Some r \<Longrightarrow> length r < length s"
  by (simp add: consumes_def)

lemma replace_all_shorter:
  "consumes m \<Longrightarrow> first_match m s \<noteq> None \<Longrightarrow> length (replace_all m s) < length s"
proof (induction s)
  case Nil
  then show ?case using consumesD [of m "[]"] by auto
next
  case (Cons c cs)
  show ?case
  proof (cases "m (c # cs)")
    case None
    then show ?thesis using Cons by simp
  next
    case (Some r)
    then have "length r \<le> length cs"
      using consumesD [OF Cons.prems(1) Some] by simp
    then show ?thesis
      using Some replace_all_length [of m r] by simp
  qed
qed

lemma replace_first_length: "consumes m \<Longrightarrow> length (replace_first m s) \<le> length s"
proof (induction s)
  case Nil
  then show ?case by simp
next
  case (Cons c cs)
  show ?case
  proof (cases "m (c # cs)")
    case None
    then show ?thesis using Cons by simp
  next
    case (Some r)
    then show ?thesis using consumesD [OF Cons.prems Some] by simp
  qed
qed

lemma replace_first_shorter:
  "consumes m \<Longrightarrow> first_match m s \<noteq> None \<Longrightarrow> length (replace_first m s) < length s"
proof (induction s)
  case Nil
  then show ?case using consumesD [of m "[]"] by auto
next
  case (Cons c cs)
  show ?case
  proof (cases "m (c # cs)")
    case None
    then show ?thesis using Cons by simp
  next
    case (Some r)
    then show ?thesis using consumesD [OF Cons.prems(1) Some] by simp
  qed
qed

lemma replace_all_stage:
  assumes "consumes m" and "length s \<le> length (replace_all m s)"
  shows "first_match m s = None \<and> replace_all m s = s"
proof -
  have "first_match m s = None"
    using replace_all_shorter [OF assms(1), of s] assms(2) by force
  then show ?thesis by (simp add: replace_all_no_match)
qed

lemma replace_first_stage:
  assumes "consumes m" and "length s \<le> length (replace_first m s)"
  shows "first_match m s = None \<and> replace_first m s = s"
proof -
  have "first_match m s = None"
    using replace_first_shorter [OF assms(1), of s] assms(2) by force
  then show ?thesis by (simp add: replace_first_no_match)
qed

lemma sanitized_inner_fixed_iff: "sanitized_inner s = s \<longleftrightarrow> residue_free s"
proof
  assume "residue_free s"
  then show "sanitized_inner s = s"
    by (simp add: residue_free_def occurs_def sanitized_inner_def extractInner_def sanitize_def
        stripProlog_def replace_all_no_match replace_first_no_match)
next
  assume fixed: "sanitized_inner s = s"
  define s1 where "s1 = replace_all xml_decl s"
  define s2 where "s2 = replace_all comment s1"
  define s3 where "s3 = replace_all doctype s2"
  define s4 where "s4 = replace_all metadata s3"
  define s5 where "s5 = replace_all ns_pair s4"
  define s6 where "s6 = replace_all ns_open s5"
  define s7 where "s7 = replace_all ns_attr s6"
  define s8 where "s8 = replace_first svg_open s7"
  define s9 where "s9 = replace_first svg_close s8"
  have "sanitized_inner s = s9"
    by (simp add: sanitized_inner_def extractInner_def sanitize_def stripProlog_def
        s1_def s2_def s3_def s4_def s5_def s6_def s7_def s8_def s9_def)
  then have l0: "length s \<le> length s9"
    using fixed by simp
  have l9: "length s9 \<le> length s8"
    unfolding s9_def by (rule replace_first_length [OF consumes_svg_close])
  have l8: "length s8 \<le> length s7"
    unfolding s8_def by (rule replace_first_length [OF consumes_svg_open])
  have l7: "length s7 \<le> length s6" and l6: "length s6 \<le> length s5"
    and l5: "length s5 \<le> length s4" and l4: "length s4 \<le> length s3"
    and l3: "length s3 \<le> length s2" and l2: "length s2 \<le> length s1"
    unfolding s7_def s6_def s5_def s4_def s3_def s2_def by (rule replace_all_length)+
  have e1: "first_match xml_decl s = None \<and> s1 = s"
    unfolding s1_def using l0 l9 l8 l7 l6 l5 l4 l3 l2
    by (intro replace_all_stage [OF consumes_xml_decl]) (simp add: s1_def)
  then have e2: "first_match comment s = None \<and> s2 = s"
    using replace_all_stage [OF consumes_comment, of s] l0 l9 l8 l7 l6 l5 l4 l3
    by (simp add: s2_def)
  then have e3: "first_match doctype s = None \<and> s3 = s"
    using replace_all_stage [OF consumes_doctype, of s] l0 l9 l8 l7 l6 l5 l4
    by (simp add: s3_def)
  then have e4: "first_match metadata s = None \<and> s4 = s"
    using replace_all_stage [OF consumes_metadata, of s] l0 l9 l8 l7 l6 l5
    by (simp add: s4_def)
  then have e5: "first_match ns_pair s = None \<and> s5 = s"
    using replace_all_stage [OF consumes_ns_pair, of s] l0 l9 l8 l7 l6
    by (simp add: s5_def)
  then have e6: "first_match ns_open s = None \<and> s6 = s"
    using replace_all_stage [OF consumes_ns_open, of s] l0 l9 l8 l7
    by (simp add: s6_def)
  then have e7: "first_match ns_attr s = None \<and> s7 = s"
    using replace_all_stage [OF consumes_ns_attr, of s] l0 l9 l8
    by (simp add: s7_def)
  then have e8: "first_match svg_open s = None \<and> s8 = s"
    using replace_first_stage [OF consumes_svg_open, of s] l0 l9
    by (simp add: s8_def)
  then have e9: "first_match svg_close s = None \<and> s9 = s"
    using replace_first_stage [OF consumes_svg_close, of s] l0
    by (simp add: s9_def)
  show "residue_free s"
    using e1 e2 e3 e4 e5 e6 e7 e8 e9 by (simp add: residue_free_def occurs_def)
qed

text \<open>
  C4, as the claim states it, fails: of a fragment with a nested \<^verbatim>\<open>svg\<close> element the
  first pass removes the outer start tag and the inner end tag, and a second pass removes
  the two tags that are left.
\<close>

theorem sanitize_twice_counterexample:
  \<open>sanitized_inner ''<svg viewBox="0 0 10 10"><svg x="1"><rect/></svg></svg>''
     = ''<svg x="1"><rect/></svg>''
   \<and> sanitized_inner (sanitized_inner ''<svg viewBox="0 0 10 10"><svg x="1"><rect/></svg></svg>'')
     = ''<rect/>''
   \<and> sanitized_inner (sanitized_inner ''<svg viewBox="0 0 10 10"><svg x="1"><rect/></svg></svg>'')
     \<noteq> sanitized_inner ''<svg viewBox="0 0 10 10"><svg x="1"><rect/></svg></svg>''\<close>
  by code_simp

text \<open>
  C4, amended: sanitising is idempotent on exactly those inputs whose sanitised text is
  free of residue, that is, holds no further XML declaration, comment, DOCTYPE, metadata
  element, element or attribute of the two editor namespaces, \<^verbatim>\<open>svg\<close> start tag or
  \<^verbatim>\<open>svg\<close> end tag; on every other input the second pass removes more.
\<close>

theorem sanitize_twice:
  "sanitized_inner (sanitized_inner raw) = sanitized_inner raw
     \<longleftrightarrow> residue_free (sanitized_inner raw)"
  by (rule sanitized_inner_fixed_iff)

lemma example_sanitized:
  \<open>sanitized_inner
     ''<?xml version="1.0"?><!-- made by hand --><svg viewBox="0 0 10 10" inkscape:version="1"><metadata><rdf:RDF/></metadata><sodipodi:namedview id="v"/><rect inkscape:label="a"/></svg>''
     = ''<rect/>''\<close>
  \<open>residue_free ''<rect/>''\<close>
  by code_simp+

theorem sanitize_twice_witness:
  \<open>residue_free ''<rect/>''
   \<and> sanitized_inner (sanitized_inner
     ''<?xml version="1.0"?><!-- made by hand --><svg viewBox="0 0 10 10" inkscape:version="1"><metadata><rdf:RDF/></metadata><sodipodi:namedview id="v"/><rect inkscape:label="a"/></svg>'')
     = ''<rect/>''\<close>
  using sanitize_twice [of
      \<open>''<?xml version="1.0"?><!-- made by hand --><svg viewBox="0 0 10 10" inkscape:version="1"><metadata><rdf:RDF/></metadata><sodipodi:namedview id="v"/><rect inkscape:label="a"/></svg>''\<close>]
  by (simp add: example_sanitized)

section \<open>Where the view box is read\<close>

lemma first_match_skip:
  "\<forall>i<length pre. m (drop i (pre @ suf)) = None \<Longrightarrow> first_match m (pre @ suf) = first_match m suf"
proof (induction pre)
  case Nil
  then show ?case by simp
next
  case (Cons c pre)
  from Cons.prems have "m ((c # pre) @ suf) = None"
    by (metis drop0 length_greater_0_conv list.distinct(1))
  moreover have "\<forall>i<length pre. m (drop i (pre @ suf)) = None"
  proof (intro allI impI)
    fix i assume "i < length pre"
    then have "m (drop (Suc i) ((c # pre) @ suf)) = None"
      using Cons.prems by (metis Suc_less_eq length_Cons)
    then show "m (drop i (pre @ suf)) = None" by simp
  qed
  ultimately show ?case using Cons.IH by simp
qed

lemma first_match_here: "m s = Some v \<Longrightarrow> first_match m s = Some v"
  by (cases s) auto

lemma viewBox_attr_here:
  assumes "v \<noteq> []" and "CHR 0x22 \<notin> set v"
  shows "viewBox_attr (''viewBox='' @ [CHR 0x22] @ v @ [CHR 0x22] @ post) = Some v"
proof -
  have t: "takeWhile (\<lambda>c. c \<noteq> CHR 0x22) (v @ CHR 0x22 # post) = v"
    using assms(2) by (subst takeWhile_append2) auto
  have d: "dropWhile (\<lambda>c. c \<noteq> CHR 0x22) (v @ CHR 0x22 # post) = CHR 0x22 # post"
    using assms(2) by (subst dropWhile_append2) auto
  show ?thesis
    using assms(1) by (simp add: viewBox_attr_def ci_eq_def t d)
qed

text \<open>
  C10: the block of a fragment takes \<^verbatim>\<open>tx\<close>, \<^verbatim>\<open>ty\<close> and \<^verbatim>\<open>scale\<close> from the view
  box of the raw text and its inner markup from the sanitised text.  The view box of the
  raw text is that of the first \<^verbatim>\<open>viewBox="..."\<close> with a non-empty value: when the
  expression matches nowhere in \<open>pre\<close>, the text
  \<open>pre @ viewBox="v" @ post\<close> has the view box that the attribute alone gives, whatever
  \<open>pre\<close> and \<open>post\<close> are (an open comment, a metadata element, another
  \<^verbatim>\<open>viewBox\<close> further on).
\<close>

theorem view_box_of_raw_text:
  assumes "list_all (\<lambda>i. viewBox_attr (drop i (pre @ ''viewBox='' @ [CHR 0x22] @ v @ [CHR 0x22] @ post)) = None)
             [0..<length pre]"
    and "v \<noteq> []" and "CHR 0x22 \<notin> set v"
  shows "extractViewBox (pre @ ''viewBox='' @ [CHR 0x22] @ v @ [CHR 0x22] @ post)
       = extractViewBox (''viewBox='' @ [CHR 0x22] @ v @ [CHR 0x22])
     \<and> fragment_block y idx file (pre @ ''viewBox='' @ [CHR 0x22] @ v @ [CHR 0x22] @ post)
       = FragmentBlock (padding + (idx mod cols) * colWidth) (y + (idx div cols) * blockHeight)
           (fit_tx (extractViewBox (''viewBox='' @ [CHR 0x22] @ v @ [CHR 0x22])))
           (fit_ty (extractViewBox (''viewBox='' @ [CHR 0x22] @ v @ [CHR 0x22])))
           (fit_scale (extractViewBox (''viewBox='' @ [CHR 0x22] @ v @ [CHR 0x22])))
           (extractInner (sanitize (stripProlog
              (pre @ ''viewBox='' @ [CHR 0x22] @ v @ [CHR 0x22] @ post))))
           (basename file ''.svg'')"
proof -
  let ?attr = "''viewBox='' @ [CHR 0x22] @ v @ [CHR 0x22]"
  have here: "viewBox_attr (?attr @ p) = Some v" for p
    using viewBox_attr_here [OF assms(2,3), of p] by simp
  have "\<forall>i<length pre. viewBox_attr (drop i (pre @ ?attr @ post)) = None"
    using assms(1) by (simp add: list_all_iff)
  then have "first_match viewBox_attr (pre @ ?attr @ post) = first_match viewBox_attr (?attr @ post)"
    by (rule first_match_skip)
  also have "\<dots> = Some v"
    using here [of post] by (intro first_match_here) simp
  finally have a: "first_match viewBox_attr (pre @ ?attr @ post) = Some v" .
  have b: "first_match viewBox_attr ?attr = Some v"
    using here [of "[]"] by (intro first_match_here) simp
  have vb: "extractViewBox (pre @ ?attr @ post) = extractViewBox ?attr"
    using a b by (simp add: extractViewBox_def)
  have "fragment_block y idx file (pre @ ?attr @ post)
       = FragmentBlock (padding + (idx mod cols) * colWidth) (y + (idx div cols) * blockHeight)
           (fit_tx (extractViewBox (pre @ ?attr @ post)))
           (fit_ty (extractViewBox (pre @ ?attr @ post)))
           (fit_scale (extractViewBox (pre @ ?attr @ post)))
           (extractInner (sanitize (stripProlog (pre @ ?attr @ post))))
           (basename file ''.svg'')"
    by (simp add: fragment_block_def Let_def)
  then show ?thesis
    using vb by simp
qed

lemma example_commented_view_box:
  \<open>list_all (\<lambda>i. viewBox_attr (drop i
       (''<!-- <svg '' @ ''viewBox='' @ [CHR 0x22] @ ''0 0 10 10'' @ [CHR 0x22]
          @ ''/> --><svg viewBox="0 0 100 100"><path/></svg>'')) = None)
     [0..<length ''<!-- <svg '']\<close>
  \<open>extractViewBox (''viewBox='' @ [CHR 0x22] @ ''0 0 10 10'' @ [CHR 0x22])
     = \<lparr>minX = Some (Fin 0), minY = Some (Fin 0), width = Some (Fin 10), height = Some (Fin 10)\<rparr>\<close>
  \<open>extractInner (sanitize (stripProlog
       ''<!-- <svg viewBox="0 0 10 10"/> --><svg viewBox="0 0 100 100"><path/></svg>''))
     = ''<path/>''\<close>
  \<open>extractViewBox ''<svg viewBox="0 0 100 100"><path/></svg>''
     = \<lparr>minX = Some (Fin 0), minY = Some (Fin 0), width = Some (Fin 100), height = Some (Fin 100)\<rparr>\<close>
  by code_simp+

lemma example_fit:
  "fit_scale \<lparr>minX = Some (Fin 0), minY = Some (Fin 0), width = Some (Fin 10), height = Some (Fin 10)\<rparr>
     = Fin (82 / 5)"
  "fit_tx \<lparr>minX = Some (Fin 0), minY = Some (Fin 0), width = Some (Fin 10), height = Some (Fin 10)\<rparr>
     = Fin 8"
  "fit_ty \<lparr>minX = Some (Fin 0), minY = Some (Fin 0), width = Some (Fin 10), height = Some (Fin 10)\<rparr>
     = Fin 30"
  by (simp_all add: fit_tx_def fit_ty_def fit_scale_def jsub_def innerW_def innerH_def
      thumbWidth_def thumbHeight_def to_number_def)

theorem view_box_of_raw_text_witness:
  \<open>extractViewBox ''<!-- <svg viewBox="0 0 10 10"/> --><svg viewBox="0 0 100 100"><path/></svg>''
     = \<lparr>minX = Some (Fin 0), minY = Some (Fin 0), width = Some (Fin 10), height = Some (Fin 10)\<rparr>
   \<and> fragment_block 46 0 ''a.svg''
       ''<!-- <svg viewBox="0 0 10 10"/> --><svg viewBox="0 0 100 100"><path/></svg>''
     = FragmentBlock 24 46 (Fin 8) (Fin 30) (Fin (82 / 5)) ''<path/>'' ''a''\<close>
proof -
  have v: \<open>''0 0 10 10'' \<noteq> []\<close> \<open>CHR 0x22 \<notin> set ''0 0 10 10''\<close>
    by simp_all
  have raw: \<open>''<!-- <svg '' @ ''viewBox='' @ [CHR 0x22] @ ''0 0 10 10'' @ [CHR 0x22]
          @ ''/> --><svg viewBox="0 0 100 100"><path/></svg>''
      = ''<!-- <svg viewBox="0 0 10 10"/> --><svg viewBox="0 0 100 100"><path/></svg>''\<close>
    by simp
  have b: "basename ''a.svg'' ''.svg'' = ''a''"
    by (simp add: basename_def ends_with_def)
  from view_box_of_raw_text [OF example_commented_view_box(1) v, of 46 0 "''a.svg''"]
  show ?thesis
    unfolding raw example_commented_view_box(2,3) example_fit b
    by (simp add: padding_def cols_def colWidth_def blockHeight_def)
qed

section \<open>Replacing feature ids on a copy\<close>

lemma ref_targets_mem: "a \<in> set (ref_targets props) \<longleftrightarrow> (\<exists>k. (k, Ref a) \<in> set props)"
  by (induction props rule: ref_targets.induct) auto

lemma ref_targets_inj:
  "distinct (ref_targets props) \<Longrightarrow> (k, Ref a) \<in> set props \<Longrightarrow> (k', Ref a) \<in> set props
   \<Longrightarrow> k = k'"
  by (induction props rule: ref_targets.induct) (auto simp: ref_targets_mem)

lemma map_of_target: "map_of props k = Some (Ref a) \<Longrightarrow> a \<in> set (ref_targets props)"
  by (auto simp: ref_targets_mem dest: map_of_SomeD)

lemma copy_fields_copies:
  "copy_fields feats props = (feats', props')
   \<Longrightarrow> \<forall>a\<in>set (ref_targets props). a < length feats
   \<Longrightarrow> copies feats props feats' props'"
proof (induction feats props arbitrary: feats' props' rule: copy_fields.induct)
  case (1 feats)
  then show ?case by (simp add: copies_def)
next
  case (2 feats k p props)
  from "2.prems"(1) obtain p1 where
    c: "copy_fields feats props = (feats', p1)" and p': "props' = (k, Prim p) # p1"
    by (auto split: prod.splits)
  from "2.IH" [OF c] "2.prems"(2) have ih: "copies feats props feats' p1"
    by simp
  then have rel: "\<forall>k. case map_of props k of
              None \<Rightarrow> map_of p1 k = None
            | Some (Prim p) \<Rightarrow> map_of p1 k = Some (Prim p)
            | Some (Ref b) \<Rightarrow> (\<exists>a'. map_of p1 k = Some (Ref a') \<and> feats' ! a' = feats ! b)"
    by (simp add: copies_def)
  have rel': "case map_of ((k, Prim p) # props) k' of
              None \<Rightarrow> map_of props' k' = None
            | Some (Prim p) \<Rightarrow> map_of props' k' = Some (Prim p)
            | Some (Ref b) \<Rightarrow> (\<exists>a'. map_of props' k' = Some (Ref a') \<and> feats' ! a' = feats ! b)" for k'
    using rel [rule_format, of k']
    by (cases "k' = k") (auto simp: p' split: option.splits slot.splits)
  show ?case
    unfolding copies_def
    using ih rel' by (simp add: p' copies_def)
next
  case (3 feats k a props)
  from "3.prems"(1) obtain p1 where
    c: "copy_fields (feats @ [feats ! a]) props = (feats', p1)"
    and p': "props' = (k, Ref (length feats)) # p1"
    by (auto split: prod.splits)
  have wf: "\<forall>b\<in>set (ref_targets props). b < length feats"
    using "3.prems"(2) by simp
  from "3.IH" [OF c] wf have ih: "copies (feats @ [feats ! a]) props feats' p1"
    by (simp add: less_Suc_eq)
  then have len: "Suc (length feats) \<le> length feats'"
    and tk: "take (Suc (length feats)) feats' = feats @ [feats ! a]"
    and keys: "map fst p1 = map fst props"
    and rng: "\<forall>a'\<in>set (ref_targets p1). Suc (length feats) \<le> a' \<and> a' < length feats'"
    and dist: "distinct (ref_targets p1)"
    and rel: "\<forall>k. case map_of props k of
              None \<Rightarrow> map_of p1 k = None
            | Some (Prim p) \<Rightarrow> map_of p1 k = Some (Prim p)
            | Some (Ref b) \<Rightarrow> (\<exists>a'. map_of p1 k = Some (Ref a') \<and> feats' ! a' = (feats @ [feats ! a]) ! b)"
    by (simp_all add: copies_def)
  have tk': "take (length feats) feats' = feats"
  proof -
    have "take (length feats) (take (Suc (length feats)) feats') = feats"
      unfolding tk by simp
    then show ?thesis by (simp add: min_def)
  qed
  have here: "feats' ! length feats = feats ! a"
  proof -
    have "take (Suc (length feats)) feats' ! length feats = feats ! a"
      unfolding tk by simp
    then show ?thesis by simp
  qed
  have fresh: "length feats \<notin> set (ref_targets p1)"
    using rng by auto
  have rel': "case map_of ((k, Ref a) # props) k' of
              None \<Rightarrow> map_of props' k' = None
            | Some (Prim p) \<Rightarrow> map_of props' k' = Some (Prim p)
            | Some (Ref b) \<Rightarrow> (\<exists>a'. map_of props' k' = Some (Ref a') \<and> feats' ! a' = feats ! b)" for k'
  proof (cases "k' = k")
    case True
    then show ?thesis by (simp add: p' here)
  next
    case False
    show ?thesis
    proof (cases "map_of props k'")
      case None
      then show ?thesis using rel [rule_format, of k'] False by (simp add: p')
    next
      case (Some v)
      show ?thesis
      proof (cases v)
        case (Prim p)
        then show ?thesis using rel [rule_format, of k'] False Some by (simp add: p')
      next
        case (Ref b)
        then have "b < length feats"
          using wf Some map_of_target by blast
        then have "(feats @ [feats ! a]) ! b = feats ! b"
          by (simp add: nth_append)
        then show ?thesis using rel [rule_format, of k'] False Some Ref by (simp add: p')
      qed
    qed
  qed
  show ?case
    unfolding copies_def
    using len tk' keys rng dist fresh rel' by (auto simp: p')
qed

lemma replace_step_faces [simp]: "faces (replace_step next e st) = faces st"
  by (cases e) (auto simp: replace_step_def split: option.splits slot.splits)

lemma replace_step_length [simp]:
  "length (features (replace_step next e st)) = length (features st)"
  by (cases e) (auto simp: replace_step_def split: option.splits slot.splits)

lemma replaced_Cons:
  "replaced ((k0, v0) # reps) k obj
     = (if k = k0 then (if truthy v0 then AList.update ''id'' v0 obj else obj)
        else replaced reps k obj)"
  by (simp add: replaced_def)

lemma replaced_absent: "k \<notin> fst ` set reps \<Longrightarrow> replaced reps k obj = obj"
  by (simp add: replaced_def map_of_eq_None_iff [THEN iffD2])

text \<open>
  The loop writes the objects the copy refers to and nothing else; each of them ends
  as \<open>replaced\<close> says for its key.
\<close>

lemma fold_replace_step:
  assumes "distinct (map fst reps)"
    and "distinct (ref_targets (faces st ! next))"
    and "\<forall>a\<in>set (ref_targets (faces st ! next)). a < length (features st)"
  shows "faces (fold (replace_step next) reps st) = faces st
     \<and> length (features (fold (replace_step next) reps st)) = length (features st)
     \<and> (\<forall>k a. map_of (faces st ! next) k = Some (Ref a)
          \<longrightarrow> features (fold (replace_step next) reps st) ! a = replaced reps k (features st ! a))
     \<and> (\<forall>b. b \<notin> set (ref_targets (faces st ! next))
          \<longrightarrow> features (fold (replace_step next) reps st) ! b = features st ! b)"
  using assms
proof (induction reps arbitrary: st)
  case Nil
  then show ?case by (simp add: replaced_def)
next
  case (Cons e reps)
  obtain k0 v0 where e: "e = (k0, v0)" by (cases e)
  let ?st2 = "replace_step next (k0, v0) st"
  let ?F = "fold (replace_step next) reps ?st2"
  have d: "distinct (map fst reps)" and k0: "k0 \<notin> fst ` set reps"
    using Cons.prems(1) e by auto
  have ih: "faces ?F = faces ?st2
     \<and> length (features ?F) = length (features ?st2)
     \<and> (\<forall>k a. map_of (faces ?st2 ! next) k = Some (Ref a)
          \<longrightarrow> features ?F ! a = replaced reps k (features ?st2 ! a))
     \<and> (\<forall>b. b \<notin> set (ref_targets (faces ?st2 ! next)) \<longrightarrow> features ?F ! b = features ?st2 ! b)"
    using Cons.prems(2,3) by (intro Cons.IH [OF d]) simp_all
  show ?case
  proof (cases "truthy v0 \<and> (\<exists>a0. map_of (faces st ! next) k0 = Some (Ref a0))")
    case True
    then obtain a0 where t: "truthy v0" and a0: "map_of (faces st ! next) k0 = Some (Ref a0)"
      by blast
    have st2: "?st2 = st\<lparr>features := (features st)[a0 := AList.update ''id'' v0 (features st ! a0)]\<rparr>"
      using t a0 by (simp add: replace_step_def)
    have a0_lt: "a0 < length (features st)"
      using Cons.prems(3) map_of_target [OF a0] by blast
    have key: "features ?F ! a = replaced (e # reps) k (features st ! a)"
      if m: "map_of (faces st ! next) k = Some (Ref a)" for k a
    proof (cases "k = k0")
      case True
      then have "a = a0" using m a0 by simp
      then show ?thesis
        using ih m True t a0_lt k0 by (simp add: st2 e replaced_Cons replaced_absent)
    next
      case False
      have "a \<noteq> a0"
        using ref_targets_inj [OF Cons.prems(2) map_of_SomeD [OF m], of k0] map_of_SomeD [OF a0] False
        by blast
      then show ?thesis
        using ih m False by (simp add: st2 e replaced_Cons)
    qed
    have other: "features ?F ! b = features st ! b"
      if "b \<notin> set (ref_targets (faces st ! next))" for b
    proof -
      have "b \<noteq> a0" using that map_of_target [OF a0] by blast
      then show ?thesis using ih that by (simp add: st2)
    qed
    show ?thesis
      using ih key other by (simp add: e)
  next
    case False
    then have st2: "?st2 = st"
      by (auto simp: replace_step_def split: option.splits slot.splits)
    have key: "features ?F ! a = replaced (e # reps) k (features st ! a)"
      if m: "map_of (faces st ! next) k = Some (Ref a)" for k a
    proof (cases "k = k0")
      case True
      then have "\<not> truthy v0" using False m by simp
      then show ?thesis
        using ih m True k0 by (simp add: st2 e replaced_Cons replaced_absent)
    next
      case False
      then show ?thesis
        using ih m by (simp add: st2 e replaced_Cons)
    qed
    show ?thesis
      using ih key by (simp add: st2 e)
  qed
qed

text \<open>
  C9: when \<^verbatim>\<open>replaceFeatureIds\<close> returns, every object that was in the store, the
  input face and its feature objects among them, is as before; the returned face is a
  new object with the keys of the input; a property that holds a primitive value holds
  the same value; a property that refers to a feature object refers to a new object,
  which equals the input's except that its \<^verbatim>\<open>id\<close> is the replacement for that key
  when the replacements have a truthy one (\<open>replaced\<close>).  The keys of
  \<^verbatim>\<open>replacements\<close>, an object, are distinct.
\<close>

theorem replaceFeatureIds_frame:
  assumes run: "replaceFeatureIds st face replacements = Some (st', next)"
    and keys: "distinct (map fst replacements)"
  shows "take (length (faces st)) (faces st') = faces st
     \<and> take (length (features st)) (features st') = features st
     \<and> next = length (faces st) \<and> face < length (faces st)
     \<and> map fst (faces st' ! next) = map fst (faces st ! face)
     \<and> (\<forall>key. case map_of (faces st ! face) key of
            None \<Rightarrow> map_of (faces st' ! next) key = None
          | Some (Prim p) \<Rightarrow> map_of (faces st' ! next) key = Some (Prim p)
          | Some (Ref a) \<Rightarrow>
              (\<exists>a'. map_of (faces st' ! next) key = Some (Ref a')
                 \<and> length (features st) \<le> a' \<and> a' < length (features st')
                 \<and> features st' ! a' = replaced replacements key (features st ! a)))"
proof -
  from run obtain st1 where dc: "deepCopy st face = Some (st1, next)"
    and st': "st' = fold (replace_step next) replacements st1"
    by (auto simp: replaceFeatureIds_def split: option.splits)
  from dc obtain feats' props' where
    face: "face < length (faces st)"
    and wf: "\<forall>a\<in>set (ref_targets (faces st ! face)). a < length (features st)"
    and cf: "copy_fields (features st) (faces st ! face) = (feats', props')"
    and st1: "st1 = \<lparr>faces = faces st @ [props'], features = feats'\<rparr>"
    and nx: "next = length (faces st)"
    by (auto simp: deepCopy_def list_all_iff split: if_splits prod.splits)
  from copy_fields_copies [OF cf wf] have
    len: "length (features st) \<le> length feats'"
    and tk: "take (length (features st)) feats' = features st"
    and ks: "map fst props' = map fst (faces st ! face)"
    and rng: "\<forall>a'\<in>set (ref_targets props'). length (features st) \<le> a' \<and> a' < length feats'"
    and dist: "distinct (ref_targets props')"
    and rel: "\<forall>k. case map_of (faces st ! face) k of
              None \<Rightarrow> map_of props' k = None
            | Some (Prim p) \<Rightarrow> map_of props' k = Some (Prim p)
            | Some (Ref a) \<Rightarrow> (\<exists>a'. map_of props' k = Some (Ref a') \<and> feats' ! a' = features st ! a)"
    by (simp_all add: copies_def)
  have nth1: "faces st1 ! next = props'"
    by (simp add: st1 nx)
  from fold_replace_step [of replacements st1 "next"] keys dist rng have
    f: "faces st' = faces st1"
    and l: "length (features st') = length feats'"
    and upd: "\<And>k a. map_of props' k = Some (Ref a)
        \<Longrightarrow> features st' ! a = replaced replacements k (feats' ! a)"
    and same: "\<And>b. b \<notin> set (ref_targets props') \<Longrightarrow> features st' ! b = feats' ! b"
    unfolding st' nth1 by (simp_all add: st1)
  have a: "take (length (faces st)) (faces st') = faces st"
    by (simp add: f st1)
  have b: "take (length (features st)) (features st') = features st"
  proof (rule nth_equalityI)
    show "length (take (length (features st)) (features st')) = length (features st)"
      using len l by simp
  next
    fix i assume "i < length (take (length (features st)) (features st'))"
    then have i: "i < length (features st)" by simp
    then have "i \<notin> set (ref_targets props')"
      using rng by auto
    then have "features st' ! i = feats' ! i"
      by (rule same)
    also have "\<dots> = take (length (features st)) feats' ! i"
      using i by simp
    also have "\<dots> = features st ! i"
      by (simp add: tk)
    finally show "take (length (features st)) (features st') ! i = features st ! i"
      using i by simp
  qed
  have c: "faces st' ! next = props'"
    by (simp add: f nth1)
  have d: "case map_of (faces st ! face) key of
            None \<Rightarrow> map_of (faces st' ! next) key = None
          | Some (Prim p) \<Rightarrow> map_of (faces st' ! next) key = Some (Prim p)
          | Some (Ref a) \<Rightarrow>
              (\<exists>a'. map_of (faces st' ! next) key = Some (Ref a')
                 \<and> length (features st) \<le> a' \<and> a' < length (features st')
                 \<and> features st' ! a' = replaced replacements key (features st ! a))" for key
  proof (cases "map_of (faces st ! face) key")
    case None
    then show ?thesis using rel [rule_format, of key] by (simp add: c)
  next
    case (Some v)
    show ?thesis
    proof (cases v)
      case (Prim p)
      then show ?thesis using rel [rule_format, of key] Some by (simp add: c)
    next
      case (Ref a0)
      then obtain a' where m: "map_of props' key = Some (Ref a')"
        and e: "feats' ! a' = features st ! a0"
        using rel [rule_format, of key] Some by auto
      have "length (features st) \<le> a' \<and> a' < length feats'"
        using rng map_of_target [OF m] by blast
      then show ?thesis
        using Some Ref m e upd [OF m] l by (simp add: c)
    qed
  qed
  show ?thesis
    using a b nx face ks c d by simp
qed

lemma example_replace:
  "replaceFeatureIds
     \<lparr>faces = [[(''fatness'', Prim (PNum (Fin (1 / 2)))), (''hair'', Ref 0), (''eye'', Ref 1),
                (''nose'', Ref 2)]],
      features = [[(''id'', PStr ''short''), (''flip'', PBool False)], [(''id'', PStr ''eye1'')],
                  [(''id'', PStr ''nose1'')]]\<rparr>
     0 [(''hair'', PStr ''afro''), (''eye'', PStr ''''), (''fatness'', PStr ''x''),
        (''mouth'', PStr ''smile'')]
   = Some (\<lparr>faces = [[(''fatness'', Prim (PNum (Fin (1 / 2)))), (''hair'', Ref 0), (''eye'', Ref 1),
                       (''nose'', Ref 2)],
                      [(''fatness'', Prim (PNum (Fin (1 / 2)))), (''hair'', Ref 3), (''eye'', Ref 4),
                       (''nose'', Ref 5)]],
             features = [[(''id'', PStr ''short''), (''flip'', PBool False)], [(''id'', PStr ''eye1'')],
                         [(''id'', PStr ''nose1'')],
                         [(''id'', PStr ''afro''), (''flip'', PBool False)], [(''id'', PStr ''eye1'')],
                         [(''id'', PStr ''nose1'')]]\<rparr>, 1)"
  by code_simp

theorem replaceFeatureIds_frame_witness:
  "distinct (map fst [(''hair'', PStr ''afro''), (''eye'', PStr ''''), (''fatness'', PStr ''x''),
        (''mouth'', PStr ''smile'')])
   \<and> (\<exists>st'. replaceFeatureIds
     \<lparr>faces = [[(''fatness'', Prim (PNum (Fin (1 / 2)))), (''hair'', Ref 0), (''eye'', Ref 1),
                (''nose'', Ref 2)]],
      features = [[(''id'', PStr ''short''), (''flip'', PBool False)], [(''id'', PStr ''eye1'')],
                  [(''id'', PStr ''nose1'')]]\<rparr>
     0 [(''hair'', PStr ''afro''), (''eye'', PStr ''''), (''fatness'', PStr ''x''),
        (''mouth'', PStr ''smile'')] = Some (st', 1)
     \<and> take 1 (faces st') = [[(''fatness'', Prim (PNum (Fin (1 / 2)))), (''hair'', Ref 0),
          (''eye'', Ref 1), (''nose'', Ref 2)]]
     \<and> take 3 (features st') = [[(''id'', PStr ''short''), (''flip'', PBool False)],
          [(''id'', PStr ''eye1'')], [(''id'', PStr ''nose1'')]]
     \<and> map fst (faces st' ! 1) = [''fatness'', ''hair'', ''eye'', ''nose''])"
proof -
  have k: "distinct (map fst [(''hair'', PStr ''afro''), (''eye'', PStr ''''), (''fatness'', PStr ''x''),
        (''mouth'', PStr ''smile'')])"
    by simp
  from replaceFeatureIds_frame [OF example_replace k] show ?thesis
    using example_replace k by simp
qed

end
